theory Spec2Isabelle
  imports Complex_Main "HOL-Library.Multiset" "HOL-Library.Char_ord"
    "HOL-Library.List_Lexorder" "HOL-Library.Product_Lexorder"
begin

section \<open>Data frames\<close>

text \<open>
  Both programs (\<^verbatim>\<open>app.py\<close>, the country report, and \<^verbatim>\<open>app2.py\<close>, the booking-status
  report) work on a pandas DataFrame read from the uploaded CSV. A cell of such a frame is
  a missing value, a number, a text or a timestamp. \<open>NaN\<close> stands for every value pandas
  counts as missing (\<^verbatim>\<open>NaN\<close>, \<^verbatim>\<open>None\<close>, \<^verbatim>\<open>NaT\<close>). A number is the rational that the int64 or
  float64 value denotes; the infinities and the overflow of float64 arithmetic are outside
  this development. Timestamps are pandas' own integer representation, the value the
  library sorts by.
\<close>

datatype cell = NaN | Num rat | Str string | Ts int

text \<open>
  A frame has its column labels, in order, and its rows; a row gives the cell under a
  column label (only the labels of \<open>columns\<close> matter).
\<close>

record frame =
  columns :: "string list"
  rows :: "(string \<Rightarrow> cell) list"

section \<open>Library operations\<close>

text \<open>
  \<^verbatim>\<open>groupby\<close> (with its defaults \<^verbatim>\<open>sort=True, dropna=True\<close>) leaves out the missing keys and
  lists the distinct keys in ascending order: numbers by value, texts by code point. A
  column read from a CSV holds numbers or texts, never both, so the rank below only has
  to order the cells of one kind.
\<close>

fun sort_rank :: "cell \<Rightarrow> nat \<times> rat \<times> string" where
  "sort_rank (Num x) = (0, x, [])"
| "sort_rank (Str s) = (1, 0, s)"
| "sort_rank (Ts t) = (2, of_int t, [])"
| "sort_rank NaN = (3, 0, [])"

definition group_keys :: "'k list \<Rightarrow> ('k \<Rightarrow> bool) \<Rightarrow> ('k \<Rightarrow> 'r::linorder) \<Rightarrow> 'k list" where
  "group_keys ks present rank = sort_key rank (remdups (filter present ks))"

text \<open>
  \<^verbatim>\<open>sort_values\<close> is called without \<^verbatim>\<open>kind\<close>, so it sorts with numpy's \<^verbatim>\<open>argsort\<close> of kind
  \<^verbatim>\<open>'quicksort'\<close>, which pandas documents as not stable. The order it gives to equal keys
  is fixed by numpy, not by the programs, so \<open>argsort\<close> is a parameter of every function
  that sorts. \<open>argsort_ok\<close> is what the library promises of it: the positions of the keys,
  each once, in an order that makes the keys ascend.
\<close>

definition argsort_ok :: "(int list \<Rightarrow> nat list) \<Rightarrow> bool" where
  "argsort_ok argsort \<longleftrightarrow>
     (\<forall>ks. mset (argsort ks) = mset [0..<length ks] \<and> sorted (map (\<lambda>i. ks ! i) (argsort ks)))"

text \<open>
  pandas' \<^verbatim>\<open>nargsort\<close> on keys without missing values: ascending, the positions \<open>argsort\<close>
  gives; descending, it reverses the keys and the positions, sorts, and reverses the result.
\<close>

definition nargsort :: "(int list \<Rightarrow> nat list) \<Rightarrow> bool \<Rightarrow> int list \<Rightarrow> nat list" where
  "nargsort argsort ascending items =
     (let idx = [0..<length items] in
      if ascending then map (\<lambda>i. idx ! i) (argsort items)
      else rev (map (\<lambda>i. rev idx ! i) (argsort (rev items))))"

definition take_rows :: "'a list \<Rightarrow> nat list \<Rightarrow> 'a list" where
  "take_rows xs indexer = map (\<lambda>i. xs ! i) indexer"

text \<open>Two sorts that keep the library's promise, one stable and one not.\<close>

definition stable_argsort :: "int list \<Rightarrow> nat list" where
  "stable_argsort ks = sort_key (\<lambda>i. ks ! i) [0..<length ks]"

definition unstable_argsort :: "int list \<Rightarrow> nat list" where
  "unstable_argsort ks = sort_key (\<lambda>i. ks ! i) (rev [0..<length ks])"

text \<open>
  Float64 arithmetic gives the float64 nearest to the exact result, a tie going to the
  even neighbour. \<open>rint\<close> is that rounding to a whole number, \<open>exponent x\<close> the \<open>e\<close> with
  \<open>2 ^ e \<le> \<bar>x\<bar> < 2 ^ (e + 1)\<close>, and \<open>float64 x\<close> the nearest number with a significand of
  53 bits (numbers too small or too large for float64's exponent are not told apart).
\<close>

definition rint :: "rat \<Rightarrow> int" where
  "rint x =
     (let f = \<lfloor>x\<rfloor>; d = x - of_int f in
      if d < 1 / 2 then f else if 1 / 2 < d then f + 1
      else if even f then f else f + 1)"

fun ilog2 :: "nat \<Rightarrow> nat" where
  "ilog2 n = (if n < 2 then 0 else Suc (ilog2 (n div 2)))"

declare ilog2.simps [simp del]

definition exponent :: "rat \<Rightarrow> int" where
  "exponent x =
     (if 1 \<le> \<bar>x\<bar> then int (ilog2 (nat \<lfloor>\<bar>x\<bar>\<rfloor>))
      else - int (ilog2 (nat \<lceil>1 / \<bar>x\<bar>\<rceil> - 1)) - 1)"

definition pow2 :: "int \<Rightarrow> rat" where
  "pow2 e = (if 0 \<le> e then 2 ^ nat e else 1 / 2 ^ nat (- e))"

definition float64 :: "rat \<Rightarrow> rat" where
  "float64 x =
     (if x = 0 then 0
      else let ulp = pow2 (exponent x - 52) in of_int (rint (x / ulp)) * ulp)"

text \<open>
  The aggregations skip missing values, as pandas does. A sum is taken exact, as the
  float64 sum of whole numbers is below \<open>2 ^ 53\<close>; the mean is the float64 quotient of the
  sum by the count.
\<close>

fun present :: "'a option list \<Rightarrow> 'a list" where
  "present [] = []"
| "present (None # xs) = present xs"
| "present (Some x # xs) = x # present xs"

definition agg_count :: "rat option list \<Rightarrow> int" where
  "agg_count xs = int (length (present xs))"

definition agg_sum :: "rat option list \<Rightarrow> rat" where
  "agg_sum xs = sum_list (present xs)"

definition agg_mean :: "rat option list \<Rightarrow> rat option" where
  "agg_mean xs =
     (if present xs = [] then None
      else Some (float64 (sum_list (present xs) / of_nat (length (present xs)))))"

text \<open>
  \<^verbatim>\<open>round(2)\<close> is numpy's: the number times 100, rounded to a whole number, divided by 100,
  in float64 arithmetic.
\<close>

definition round2 :: "rat \<Rightarrow> rat" where
  "round2 x = float64 (of_int (rint (float64 (x * 100))) / 100)"

section \<open>The country report (app.py)\<close>

text \<open>
  After the columns are renamed and the two numeric columns coerced, a row of the frame
  is a country, a number of guests and a number of room nights, each possibly missing.
\<close>

record booking =
  Hotel_Country_Name :: cell
  Guests :: "rat option"
  Room_Nights :: "rat option"

text \<open>A row of \<^verbatim>\<open>country_analysis\<close>, with the flattened column names.\<close>

record country_summary =
  Country :: cell
  Total_Bookings :: int
  Avg_Guests :: "rat option"
  Total_Guests :: rat
  Avg_Stay_Nights :: "rat option"
  Total_Nights :: rat

record analysis =
  total_bookings :: nat
  total_countries :: nat
  total_guests :: rat
  avg_stay :: "rat option"
  country_data :: "country_summary list"
  top_country :: cell

definition agg_row :: "booking list \<Rightarrow> cell \<Rightarrow> country_summary" where
  "agg_row df k =
     (let g = filter (\<lambda>b. Hotel_Country_Name b = k) df in
      \<lparr>Country = k,
       Total_Bookings = agg_count (map Guests g),
       Avg_Guests = map_option round2 (agg_mean (map Guests g)),
       Total_Guests = round2 (agg_sum (map Guests g)),
       Avg_Stay_Nights = map_option round2 (agg_mean (map Room_Nights g)),
       Total_Nights = round2 (agg_sum (map Room_Nights g))\<rparr>)"

definition groupby_agg :: "booking list \<Rightarrow> country_summary list" where
  "groupby_agg df =
     map (agg_row df) (group_keys (map Hotel_Country_Name df) (\<lambda>c. c \<noteq> NaN) sort_rank)"

definition analyze_booking_data :: "(int list \<Rightarrow> nat list) \<Rightarrow> booking list \<Rightarrow> analysis" where
  "analyze_booking_data argsort df =
     (let grouped = groupby_agg df;
          country_analysis =
            take_rows grouped (nargsort argsort False (map Total_Bookings grouped))
      in \<lparr>total_bookings = length df,
          total_countries = length country_analysis,
          total_guests = agg_sum (map Guests df),
          avg_stay = agg_mean (map Room_Nights df),
          country_data = country_analysis,
          top_country =
            (case country_analysis of [] \<Rightarrow> Str ''N/A'' | r # _ \<Rightarrow> Country r)\<rparr>)"

text \<open>
  \<^verbatim>\<open>main\<close>, from the frame \<^verbatim>\<open>read_csv\<close> returned. \<^verbatim>\<open>pd.to_numeric(..., errors='coerce')\<close> keeps
  a number, and turns a text into the number it spells or into a missing value; which
  texts spell a number is the library's matter, the parameter \<open>to_num\<close>. The two ways
  \<^verbatim>\<open>main\<close> stops with \<^verbatim>\<open>st.error\<close> are the two errors.
\<close>

datatype error =
    SchemaError nat \<comment> \<open>Invalid file format: Expected 3 columns, found n\<close>
  | EmptyDatasetError \<comment> \<open>No valid data found after processing\<close>

fun to_numeric :: "(string \<Rightarrow> rat option) \<Rightarrow> cell \<Rightarrow> rat option" where
  "to_numeric to_num (Num x) = Some x"
| "to_numeric to_num (Str s) = to_num s"
| "to_numeric to_num _ = None"

definition coerce_row :: "(string \<Rightarrow> rat option) \<Rightarrow> string list \<Rightarrow> (string \<Rightarrow> cell) \<Rightarrow> booking" where
  "coerce_row to_num cols r =
     \<lparr>Hotel_Country_Name = r (cols ! 0),
      Guests = to_numeric to_num (r (cols ! 1)),
      Room_Nights = to_numeric to_num (r (cols ! 2))\<rparr>"

definition complete :: "booking \<Rightarrow> bool" where
  "complete b \<longleftrightarrow> Hotel_Country_Name b \<noteq> NaN \<and> Guests b \<noteq> None \<and> Room_Nights b \<noteq> None"

definition dropna :: "booking list \<Rightarrow> booking list" where
  "dropna df = filter complete df"

definition clean :: "(string \<Rightarrow> rat option) \<Rightarrow> frame \<Rightarrow> error + booking list" where
  "clean to_num df =
     (if length (columns df) \<noteq> 3 then Inl (SchemaError (length (columns df)))
      else let cleaned = dropna (map (coerce_row to_num (columns df)) (rows df))
           in if cleaned = [] then Inl EmptyDatasetError else Inr cleaned)"

definition main :: "(string \<Rightarrow> rat option) \<Rightarrow> (int list \<Rightarrow> nat list) \<Rightarrow> frame \<Rightarrow> error + analysis" where
  "main to_num argsort df =
     (case clean to_num df of
        Inl e \<Rightarrow> Inl e
      | Inr cleaned \<Rightarrow> Inr (analyze_booking_data argsort cleaned))"

text \<open>
  The rows \<^verbatim>\<open>dropna\<close> keeps, said of the rows of the uploaded frame: the country is there and
  both numeric cells coerce to a number.
\<close>

definition valid_row :: "(string \<Rightarrow> rat option) \<Rightarrow> string list \<Rightarrow> (string \<Rightarrow> cell) \<Rightarrow> bool" where
  "valid_row to_num cols r \<longleftrightarrow>
     r (cols ! 0) \<noteq> NaN \<and> to_numeric to_num (r (cols ! 1)) \<noteq> None
       \<and> to_numeric to_num (r (cols ! 2)) \<noteq> None"

text \<open>
  The ranking as the specification words it, for comparison with \<open>analyze_booking_data\<close>:
  the groups by descending count, groups of equal count in their group order.
\<close>

definition spec_ranking :: "country_summary list \<Rightarrow> country_summary list" where
  "spec_ranking grouped = sort_key (\<lambda>r. - Total_Bookings r) grouped"

section \<open>The booking-status report (app2.py)\<close>

subsection \<open>Period labels\<close>

text \<open>
  \<^verbatim>\<open>parse_week\<close> strips the label, matches it from its start against
  \<^verbatim>\<open>Week\s+(\d+)\s+(\d{4})\<close> and hands \<^verbatim>\<open>f'{year}-W{week_num:02d}-1'\<close> to \<^verbatim>\<open>pd.to_datetime\<close>.
  A character of a label is a code point below 256. Of these, \<open>is_space\<close> holds of the
  ones Python's \<^verbatim>\<open>strip\<close> and \<^verbatim>\<open>\s\<close> take for whitespace (tab to carriage return, the four
  separators U+001C to U+001F, the space, the next-line control U+0085 and the no-break
  space U+00A0), and \<open>is_digit\<close> of the ones \<^verbatim>\<open>\d\<close> takes for a digit.
\<close>

definition is_space :: "char \<Rightarrow> bool" where
  "is_space c \<longleftrightarrow>
     c \<in> set [CHR '' '', CHR 0x09, CHR 0x0A, CHR 0x0B, CHR 0x0C, CHR 0x0D,
              CHR 0x1C, CHR 0x1D, CHR 0x1E, CHR 0x1F, CHR 0x85, CHR 0xA0]"

definition is_digit :: "char \<Rightarrow> bool" where
  "is_digit c \<longleftrightarrow> c \<in> set ''0123456789''"

definition strip :: "string \<Rightarrow> string" where
  "strip s = rev (dropWhile is_space (rev (dropWhile is_space s)))"

text \<open>
  The match of \<^verbatim>\<open>re.match(r'Week\s+(\d+)\s+(\d{4})', s)\<close>, as its two groups. No character is
  both a space and a digit, so each \<^verbatim>\<open>+\<close> takes the whole run it stands in front of; the
  pattern is not anchored at the end, so whatever follows the four digits is ignored.
\<close>

definition re_match_week :: "string \<Rightarrow> (string \<times> string) option" where
  "re_match_week s =
     (let r1 = drop 4 s;
          r2 = dropWhile is_space r1;
          r3 = dropWhile is_digit r2;
          r4 = dropWhile is_space r3
      in if take 4 s = ''Week'' \<and> takeWhile is_space r1 \<noteq> [] \<and> takeWhile is_digit r2 \<noteq> []
            \<and> takeWhile is_space r3 \<noteq> [] \<and> length (take 4 r4) = 4 \<and> list_all is_digit (take 4 r4)
         then Some (takeWhile is_digit r2, take 4 r4)
         else None)"

text \<open>\<^verbatim>\<open>int\<close> of a run of digits, and the two number formats of the f-string.\<close>

definition digit_val :: "char \<Rightarrow> nat" where
  "digit_val c = of_char c - of_char CHR ''0''"

definition int_of_digits :: "string \<Rightarrow> nat" where
  "int_of_digits ds = foldl (\<lambda>n c. 10 * n + digit_val c) 0 ds"

fun decimal :: "nat \<Rightarrow> string" where
  "decimal n =
     (if n < 10 then [char_of (of_char CHR ''0'' + n)]
      else decimal (n div 10) @ [char_of (of_char CHR ''0'' + n mod 10)])"

definition decimal02 :: "nat \<Rightarrow> string" where
  "decimal02 n = (if n < 10 then CHR ''0'' # decimal n else decimal n)"

text \<open>
  \<^verbatim>\<open>pd.to_datetime\<close> is the library's: \<open>to_datetime format c\<close> is the timestamp of the cell
  \<open>c\<close> read under \<open>format\<close>, or \<open>None\<close> where the library gives \<^verbatim>\<open>NaT\<close> or raises. A cell
  that is not a text prints as a number or a date, which the pattern never matches.
\<close>

definition to_cell :: "int option \<Rightarrow> cell" where
  "to_cell t = (case t of Some i \<Rightarrow> Ts i | None \<Rightarrow> NaN)"

fun parse_week :: "(string \<Rightarrow> cell \<Rightarrow> int option) \<Rightarrow> cell \<Rightarrow> cell" where
  "parse_week to_datetime (Str week_str) =
     (case re_match_week (strip week_str) of
        Some (g1, g2) \<Rightarrow>
          to_cell (to_datetime ''%Y-W%W-%w''
            (Str (decimal (int_of_digits g2) @ ''-W'' @ decimal02 (int_of_digits g1) @ ''-1'')))
      | None \<Rightarrow> NaN)"
| "parse_week to_datetime _ = NaN"

text \<open>
  The cell of \<^verbatim>\<open>Time_Date\<close> for a period label: \<^verbatim>\<open>parse_week\<close> in week mode,
  \<^verbatim>\<open>pd.to_datetime(..., format='%b %Y', errors='coerce')\<close> otherwise, under which a missing
  label stays missing.
\<close>

definition time_date :: "(string \<Rightarrow> cell \<Rightarrow> int option) \<Rightarrow> string \<Rightarrow> cell \<Rightarrow> cell" where
  "time_date to_datetime time_period label =
     (if time_period = ''Week'' then parse_week to_datetime label
      else if label = NaN then NaN
      else to_cell (to_datetime ''%b %Y'' label))"

definition time_column_of :: "string \<Rightarrow> string" where
  "time_column_of time_period =
     (if time_period = ''Week'' then ''Booking Week'' else ''Booking Month'')"

subsection \<open>The pivot table\<close>

text \<open>
  A pivot table: its status columns, and a row per period label with one count per status
  column. \<^verbatim>\<open>pd.DataFrame()\<close> has neither.
\<close>

record pivot =
  statuses :: "cell list"
  periods :: "(cell \<times> int list) list"

definition empty_pivot :: pivot where
  "empty_pivot = \<lparr>statuses = [], periods = []\<rparr>"

definition pivot_empty :: "pivot \<Rightarrow> bool" where
  "pivot_empty p \<longleftrightarrow> statuses p = [] \<or> periods p = []"

definition instant :: "cell \<Rightarrow> int" where
  "instant c = (case c of Ts t \<Rightarrow> t | _ \<Rightarrow> 0)"

text \<open>\<^verbatim>\<open>df[c] = ...\<close> with a value computed row by row: the column is replaced, or added last.\<close>

definition assign_column :: "string \<Rightarrow> ((string \<Rightarrow> cell) \<Rightarrow> cell) \<Rightarrow> frame \<Rightarrow> frame" where
  "assign_column c f df =
     \<lparr>columns = (if c \<in> set (columns df) then columns df else columns df @ [c]),
      rows = map (\<lambda>r. r(c := f r)) (rows df)\<rparr>"

definition sort_values :: "(int list \<Rightarrow> nat list) \<Rightarrow> (string \<Rightarrow> cell) list \<Rightarrow> (string \<Rightarrow> cell) list" where
  "sort_values argsort rs =
     take_rows rs (nargsort argsort True (map (\<lambda>r. instant (r ''Time_Date'')) rs))"

text \<open>\<^verbatim>\<open>drop_duplicates(subset=[c])\<close> keeps the first row of each value of the column.\<close>

fun drop_duplicates :: "string \<Rightarrow> cell list \<Rightarrow> (string \<Rightarrow> cell) list \<Rightarrow> (string \<Rightarrow> cell) list" where
  "drop_duplicates c seen [] = []"
| "drop_duplicates c seen (r # rs) =
     (if r c \<in> set seen then drop_duplicates c seen rs
      else r # drop_duplicates c (r c # seen) rs)"

text \<open>
  \<^verbatim>\<open>groupby([time_column, 'Booking Status']).size()\<close>: the pairs of a label and a status, neither
  missing, in ascending order, each with the number of its rows.
\<close>

definition bookings_summary :: "string \<Rightarrow> (string \<Rightarrow> cell) list \<Rightarrow> ((cell \<times> cell) \<times> int) list" where
  "bookings_summary time_column rs =
     map (\<lambda>k. (k, int (length (filter (\<lambda>r. (r time_column, r ''Booking Status'') = k) rs))))
       (group_keys (map (\<lambda>r. (r time_column, r ''Booking Status'')) rs)
          (\<lambda>k. fst k \<noteq> NaN \<and> snd k \<noteq> NaN) (\<lambda>k. (sort_rank (fst k), sort_rank (snd k))))"

text \<open>\<^verbatim>\<open>pivot(...).fillna(0)\<close>: a row per label and a column per status of the summary.\<close>

definition pivot_fillna :: "((cell \<times> cell) \<times> int) list \<Rightarrow> pivot" where
  "pivot_fillna summary =
     (let cols = group_keys (map (\<lambda>e. snd (fst e)) summary) (\<lambda>_. True) sort_rank in
      \<lparr>statuses = cols,
       periods =
         map (\<lambda>l. (l, map (\<lambda>s. case map_of summary (l, s) of Some n \<Rightarrow> n | None \<Rightarrow> 0) cols))
           (group_keys (map (\<lambda>e. fst (fst e)) summary) (\<lambda>_. True) sort_rank)\<rparr>)"

text \<open>\<^verbatim>\<open>reindex(labels, fill_value=0)\<close>: the rows in the order of \<open>labels\<close>, a new row all 0.\<close>

definition reindex :: "cell list \<Rightarrow> pivot \<Rightarrow> pivot" where
  "reindex labels p =
     p\<lparr>periods :=
         map (\<lambda>l. case map_of (periods p) l of
                    Some counts \<Rightarrow> (l, counts)
                  | None \<Rightarrow> (l, map (\<lambda>_. 0) (statuses p))) labels\<rparr>"

text \<open>
  \<^verbatim>\<open>process_data\<close>. Its first assignment writes the column \<^verbatim>\<open>Time_Date\<close> into the frame of
  the caller, so the result has a fourth part, put first: that frame after the call.
  When no kept row has a status the summary has no row, and the pivot table made of it
  is empty and is returned as it is.
\<close>

definition process_data ::
  "(string \<Rightarrow> cell \<Rightarrow> int option) \<Rightarrow> (int list \<Rightarrow> nat list) \<Rightarrow> frame \<Rightarrow> string
     \<Rightarrow> frame \<times> pivot \<times> frame \<times> string" where
  "process_data to_datetime argsort df time_period =
     (let time_column = time_column_of time_period;
          caller_df = assign_column ''Time_Date''
                        (\<lambda>r. time_date to_datetime time_period (r time_column)) df;
          df1 = caller_df\<lparr>rows := filter (\<lambda>r. r ''Time_Date'' \<noteq> NaN) (rows caller_df)\<rparr>
      in if rows df1 = [] then (caller_df, empty_pivot, df1, time_column)
         else
           let df_sorted = df1\<lparr>rows := sort_values argsort (rows df1)\<rparr>;
               pivot_table = pivot_fillna (bookings_summary time_column (rows df_sorted));
               sorted_periods =
                 map (\<lambda>r. r time_column)
                   (sort_values argsort (drop_duplicates time_column [] (rows df_sorted)))
           in (caller_df,
               (if \<not> pivot_empty pivot_table then reindex sorted_periods pivot_table
                else pivot_table),
               df_sorted, time_column))"

text \<open>
  The script below the functions, from the frame \<^verbatim>\<open>read_csv\<close> returned and the period the
  user selected. It stops with \<^verbatim>\<open>st.error\<close> when a required column is missing, and with
  \<^verbatim>\<open>st.warning\<close> and the expected format of the time column when the pivot table is empty;
  otherwise it reports.
\<close>

definition required_columns :: "string list" where
  "required_columns = [''Booking Week'', ''Booking Month'', ''Booking Status'']"

datatype message =
    MissingColumns \<comment> \<open>CSV file must contain columns: Booking Week, Booking Month, Booking Status\<close>
  | NoValidPeriods string string \<comment> \<open>No valid data found for (period) analysis. Please check your (column) column format.\<close>

record report =
  report_pivot :: pivot
  report_df :: frame
  report_total :: nat
  confirmed :: nat
  cancelled :: nat
  rejected :: nat

definition status_total :: "frame \<Rightarrow> string \<Rightarrow> nat" where
  "status_total df s = length (filter (\<lambda>r. r ''Booking Status'' = Str s) (rows df))"

definition script :: "(string \<Rightarrow> cell \<Rightarrow> int option) \<Rightarrow> (int list \<Rightarrow> nat list) \<Rightarrow> frame \<Rightarrow> string
     \<Rightarrow> message + report" where
  "script to_datetime argsort df time_period =
     (if \<not> list_all (\<lambda>col. col \<in> set (columns df)) required_columns then Inl MissingColumns
      else
        case process_data to_datetime argsort df time_period of
          (df', pivot_table, df_processed, time_column) \<Rightarrow>
            if pivot_empty pivot_table then Inl (NoValidPeriods time_period time_column)
            else Inr \<lparr>report_pivot = pivot_table, report_df = df_processed,
                      report_total = length (rows df'),
                      confirmed = status_total df' ''Confirmed'',
                      cancelled = status_total df' ''Cancelled'',
                      rejected = status_total df' ''Rejected''\<rparr>)"

text \<open>
  Three notions the properties of \<open>process_data\<close> are stated with. \<open>kept_rows\<close> are the
  rows that survive \<^verbatim>\<open>dropna(subset=['Time_Date'])\<close>, in the order of the file; \<open>count_cell\<close>
  is the number of rows with a given label and status; \<open>spec_period_order\<close> is the order
  of the periods as the specification words it: the distinct labels, each where it first
  occurs, sorted by instant with equal instants left in the order of the file.
\<close>

definition kept_rows :: "(string \<Rightarrow> cell \<Rightarrow> int option) \<Rightarrow> frame \<Rightarrow> string \<Rightarrow> (string \<Rightarrow> cell) list" where
  "kept_rows to_datetime df time_period =
     filter (\<lambda>r. r ''Time_Date'' \<noteq> NaN)
       (rows (assign_column ''Time_Date''
          (\<lambda>r. time_date to_datetime time_period (r (time_column_of time_period))) df))"

definition count_cell :: "string \<Rightarrow> (string \<Rightarrow> cell) list \<Rightarrow> cell \<Rightarrow> cell \<Rightarrow> int" where
  "count_cell time_column rs l s =
     int (length (filter (\<lambda>r. r time_column = l \<and> r ''Booking Status'' = s) rs))"

definition spec_period_order :: "(string \<Rightarrow> cell \<Rightarrow> int option) \<Rightarrow> frame \<Rightarrow> string \<Rightarrow> cell list" where
  "spec_period_order to_datetime df time_period =
     sort_key (\<lambda>l. instant (time_date to_datetime time_period l))
       (map (\<lambda>r. r (time_column_of time_period))
          (drop_duplicates (time_column_of time_period) [] (kept_rows to_datetime df time_period)))"

text \<open>
  The week labels as the specification words them, \<^verbatim>\<open>Week <int> <4-digit-year>\<close>: \<^verbatim>\<open>Week\<close>,
  spaces, digits, spaces and four digits, and nothing after them.
\<close>

definition week_grammar :: "string \<Rightarrow> bool" where
  "week_grammar s \<longleftrightarrow>
     (\<exists>ws1 g1 ws2 g2.
        s = ''Week'' @ ws1 @ g1 @ ws2 @ g2
        \<and> ws1 \<noteq> [] \<and> list_all is_space ws1 \<and> g1 \<noteq> [] \<and> list_all is_digit g1
        \<and> ws2 \<noteq> [] \<and> list_all is_space ws2 \<and> length g2 = 4 \<and> list_all is_digit g2)"

section \<open>Sorting and grouping lemmas\<close>

lemma take_rows_perm:
  assumes "mset is = mset [0..<length xs]"
  shows "mset (take_rows xs is) = mset xs"
proof -
  have "mset (map (\<lambda>i. xs ! i) is) = image_mset (\<lambda>i. xs ! i) (mset is)" by simp
  also have "\<dots> = image_mset (\<lambda>i. xs ! i) (mset [0..<length xs])" using assms by simp
  also have "\<dots> = mset (map (\<lambda>i. xs ! i) [0..<length xs])" by simp
  also have "\<dots> = mset xs" by (simp add: map_nth)
  finally show ?thesis by (simp add: take_rows_def)
qed

lemma perm_indices_in_range:
  assumes "mset is = mset [0..<n]" "i \<in> set is"
  shows "i < n"
proof -
  have "set is = set [0..<n]" using assms(1) by (metis set_mset_mset)
  then show ?thesis using assms(2) by simp
qed

lemma nargsort_perm:
  assumes "argsort_ok argsort"
  shows "mset (nargsort argsort asc items) = mset [0..<length items]"
proof -
  let ?n = "length items"
  have a: "mset (argsort items) = mset [0..<?n]"
    using assms by (simp add: argsort_ok_def)
  have b: "mset (argsort (rev items)) = mset [0..<?n]"
    using assms[unfolded argsort_ok_def, rule_format, of "rev items"] by simp
  have asc_case: "map (\<lambda>i. [0..<?n] ! i) (argsort items) = argsort items"
    using perm_indices_in_range[OF a] by (simp add: map_idI)
  have "mset (map (\<lambda>i. rev [0..<?n] ! i) (argsort (rev items)))
      = image_mset (\<lambda>i. rev [0..<?n] ! i) (mset [0..<?n])"
    using b by (metis mset_map)
  also have "\<dots> = mset (map (\<lambda>i. rev [0..<?n] ! i) [0..<length (rev [0..<?n])])" by simp
  also have "\<dots> = mset (rev [0..<?n])" by (simp only: map_nth)
  finally have desc_case: "mset (map (\<lambda>i. rev [0..<?n] ! i) (argsort (rev items))) = mset [0..<?n]"
    by simp
  show ?thesis
    using asc_case a desc_case by (simp add: nargsort_def Let_def)
qed

lemma nargsort_desc_sorted:
  assumes "argsort_ok argsort"
  shows "sorted (rev (map (\<lambda>i. items ! i) (nargsort argsort False items)))"
proof -
  let ?n = "length items"
  let ?p = "argsort (rev items)"
  have b: "mset ?p = mset [0..<?n]"
    using assms[unfolded argsort_ok_def, rule_format, of "rev items"] by simp
  have s: "sorted (map (\<lambda>i. rev items ! i) ?p)"
    using assms[unfolded argsort_ok_def, rule_format, of "rev items"] by simp
  have "map (\<lambda>i. items ! (rev [0..<?n] ! i)) ?p = map (\<lambda>i. rev items ! i) ?p"
  proof (rule map_cong[OF refl])
    fix i assume "i \<in> set ?p"
    then have "i < ?n" using perm_indices_in_range[OF b] by simp
    then show "items ! (rev [0..<?n] ! i) = rev items ! i"
      by (simp add: rev_nth)
  qed
  then have "rev (map (\<lambda>i. items ! i) (nargsort argsort False items)) = map (\<lambda>i. rev items ! i) ?p"
    by (simp only: nargsort_def Let_def if_False rev_map rev_rev_ident map_map o_def)
  then show ?thesis
    using s by (simp only:)
qed

lemma nargsort_asc_sorted:
  assumes "argsort_ok argsort"
  shows "sorted (map (\<lambda>i. items ! i) (nargsort argsort True items))"
proof -
  let ?n = "length items"
  have a: "mset (argsort items) = mset [0..<?n]"
    using assms by (simp add: argsort_ok_def)
  have "map (\<lambda>i. [0..<?n] ! i) (argsort items) = argsort items"
    using perm_indices_in_range[OF a] by (simp add: map_idI)
  then show ?thesis using assms by (simp add: nargsort_def argsort_ok_def)
qed

lemma stable_argsort_ok: "argsort_ok stable_argsort"
  by (simp add: argsort_ok_def stable_argsort_def)

lemma unstable_argsort_ok: "argsort_ok unstable_argsort"
  by (simp add: argsort_ok_def unstable_argsort_def)


lemma sum_indicator_distinct:
  "distinct ks \<Longrightarrow> (\<Sum>k\<leftarrow>ks. if a = k then 1 else 0) = (if a \<in> set ks then 1 else (0::nat))"
  by (induction ks) auto

lemma count_partition:
  assumes "distinct ks" "f ` set xs \<subseteq> set ks"
  shows "(\<Sum>k\<leftarrow>ks. length (filter (\<lambda>x. f x = k) xs)) = length xs"
  using assms(2)
proof (induction xs)
  case Nil
  then show ?case by simp
next
  case (Cons x xs)
  have "(\<Sum>k\<leftarrow>ks. length (filter (\<lambda>y. f y = k) (x # xs)))
      = (\<Sum>k\<leftarrow>ks. (if f x = k then 1 else 0) + length (filter (\<lambda>y. f y = k) xs))"
    by (rule arg_cong[where f = sum_list], rule map_cong) auto
  also have "\<dots> = (\<Sum>k\<leftarrow>ks. if f x = k then 1 else 0) + (\<Sum>k\<leftarrow>ks. length (filter (\<lambda>y. f y = k) xs))"
    by (simp add: sum_list_addf)
  also have "\<dots> = 1 + length xs"
    using Cons assms(1) by (simp add: sum_indicator_distinct)
  finally show ?case by simp
qed

lemma present_all_Some:
  "\<forall>x\<in>set xs. x \<noteq> None \<Longrightarrow> length (present xs) = length xs"
  by (induction xs rule: present.induct) auto

lemma group_keys_distinct: "distinct (group_keys ks P rank)"
  by (simp add: group_keys_def)

lemma group_keys_set: "set (group_keys ks P rank) = {k \<in> set ks. P k}"
  by (auto simp: group_keys_def)

lemma sum_list_perm:
  fixes f :: "'a \<Rightarrow> int"
  shows "mset xs = mset ys \<Longrightarrow> sum_list (map f xs) = sum_list (map f ys)"
  by (metis mset_map sum_mset_sum_list)

lemma country_data_perm:
  assumes "argsort_ok argsort"
  shows "mset (country_data (analyze_booking_data argsort df)) = mset (groupby_agg df)"
proof -
  have "mset (nargsort argsort False (map Total_Bookings (groupby_agg df)))
      = mset [0..<length (groupby_agg df)]"
    using nargsort_perm[OF assms, of False "map Total_Bookings (groupby_agg df)"] by simp
  then show ?thesis
    by (simp add: analyze_booking_data_def Let_def take_rows_perm)
qed

lemma int_sum_list_map: "(\<Sum>k\<leftarrow>ks. int (f k)) = int (\<Sum>k\<leftarrow>ks. f k)"
  by (induction ks) auto

lemma grouped_counts_total:
  assumes "\<forall>b\<in>set df. complete b"
  shows "sum_list (map Total_Bookings (groupby_agg df)) = int (length df)"
proof -
  let ?ks = "group_keys (map Hotel_Country_Name df) (\<lambda>c. c \<noteq> NaN) sort_rank"
  have cnt: "Total_Bookings (agg_row df k) = int (length (filter (\<lambda>b. Hotel_Country_Name b = k) df))" for k
  proof -
    have "\<forall>x\<in>set (map Guests (filter (\<lambda>b. Hotel_Country_Name b = k) df)). x \<noteq> None"
      using assms by (auto simp: complete_def)
    then show ?thesis
      by (simp add: agg_row_def Let_def agg_count_def present_all_Some)
  qed
  have keys: "Hotel_Country_Name ` set df \<subseteq> set ?ks"
    using assms by (auto simp: group_keys_set complete_def)
  have "sum_list (map Total_Bookings (groupby_agg df))
      = (\<Sum>k\<leftarrow>?ks. int (length (filter (\<lambda>b. Hotel_Country_Name b = k) df)))"
    by (simp add: groupby_agg_def o_def cnt)
  also have "\<dots> = int (\<Sum>k\<leftarrow>?ks. length (filter (\<lambda>b. Hotel_Country_Name b = k) df))"
    by (simp add: int_sum_list_map)
  also have "\<dots> = int (length df)"
    using count_partition[OF group_keys_distinct keys] by simp
  finally show ?thesis .
qed

section \<open>The country report: lemmas\<close>

lemma argsort_two_ascending:
  assumes "argsort_ok argsort" and "a < b"
  shows "argsort [a, b] = [0, 1]"
proof -
  let ?p = "argsort [a, b]"
  have m0: "mset ?p = mset [0..<length [a, b]]"
    using assms(1)[unfolded argsort_ok_def, rule_format, of "[a, b]"] by blast
  have m: "mset ?p = mset [0..<2]"
    using m0 by (simp only: list.size One_nat_def Suc_1[symmetric] add_0 add_Suc_right add_Suc) 
  have s: "sorted (map (\<lambda>i. [a, b] ! i) ?p)"
    using assms(1)[unfolded argsort_ok_def, rule_format, of "[a, b]"] by simp
  from m have "length ?p = 2" by (metis length_upt mset_eq_length diff_zero)
  then obtain x y where p: "?p = [x, y]"
    by (metis (no_types, opaque_lifting) One_nat_def Suc_1 length_0_conv length_Suc_conv)
  from m p have xy: "{x, y} = {0, 1}" "x \<noteq> y"
  proof -
    have "set ?p = set [0..<2]" using m by (metis set_mset_mset)
    then show "{x, y} = {0, 1}" using p by (auto simp: numeral_2_eq_2)
    have "distinct ?p" using m by (metis distinct_upt mset_eq_imp_distinct_iff)
    then show "x \<noteq> y" using p by simp
  qed
  then have "(x = 0 \<and> y = 1) \<or> (x = 1 \<and> y = 0)" by (auto simp: doubleton_eq_iff)
  moreover have "\<not> (x = 1 \<and> y = 0)"
  proof
    assume "x = 1 \<and> y = 0"
    then have "sorted [b, a]" using s p by simp
    then show False using assms(2) by simp
  qed
  ultimately show ?thesis using p by auto
qed

lemma nargsort_desc_two:
  assumes "argsort_ok argsort" and "b < a"
  shows "nargsort argsort False [a, b] = [0, 1]"
  using argsort_two_ascending[OF assms] by (simp add: nargsort_def Let_def numeral_2_eq_2)

lemma scenario_grouped: "groupby_agg [\<lparr>Hotel_Country_Name = Str ''France'', Guests = Some 2, Room_Nights = Some 3\<rparr>,
      \<lparr>Hotel_Country_Name = Str ''France'', Guests = Some 1, Room_Nights = Some 5\<rparr>,
      \<lparr>Hotel_Country_Name = Str ''Spain'', Guests = Some 4, Room_Nights = Some 2\<rparr>] = 
      [\<lparr>Country = Str ''France'', Total_Bookings = 2,
          Avg_Guests = Some (3 / 2), Total_Guests = 3,
          Avg_Stay_Nights = Some 4, Total_Nights = 8\<rparr>,
       \<lparr>Country = Str ''Spain'', Total_Bookings = 1, Avg_Guests = Some 4,
          Total_Guests = 4, Avg_Stay_Nights = Some 2, Total_Nights = 2\<rparr>]"
  by code_simp

lemma nargsort_in_range:
  assumes "argsort_ok argsort" and "i \<in> set (nargsort argsort asc items)"
  shows "i < length items"
  using perm_indices_in_range[OF nargsort_perm[OF assms(1)] assms(2)] .

lemma country_data_counts:
  assumes "argsort_ok argsort"
  shows "map Total_Bookings (country_data (analyze_booking_data argsort df))
       = map (\<lambda>i. map Total_Bookings (groupby_agg df) ! i)
           (nargsort argsort False (map Total_Bookings (groupby_agg df)))"
proof -
  let ?g = "groupby_agg df"
  let ?idx = "nargsort argsort False (map Total_Bookings ?g)"
  have "map (\<lambda>i. Total_Bookings (?g ! i)) ?idx = map (\<lambda>i. map Total_Bookings ?g ! i) ?idx"
  proof (rule map_cong[OF refl])
    fix i assume "i \<in> set ?idx"
    then have "i < length ?g" using nargsort_in_range[OF assms] by fastforce
    then show "Total_Bookings (?g ! i) = map Total_Bookings ?g ! i" by simp
  qed
  then show ?thesis
    by (simp add: analyze_booking_data_def Let_def take_rows_def o_def)
qed

lemma country_data_descending:
  assumes "argsort_ok argsort"
  shows "sorted (rev (map Total_Bookings (country_data (analyze_booking_data argsort df))))"
  using nargsort_desc_sorted[OF assms, of "map Total_Bookings (groupby_agg df)"]
  by (simp only: country_data_counts[OF assms])

lemma groupby_agg_nonempty:
  assumes "df \<noteq> []" and "\<forall>b\<in>set df. complete b"
  shows "groupby_agg df \<noteq> []"
proof -
  obtain b where b: "b \<in> set df" using assms(1) by (cases df) auto
  then have "Hotel_Country_Name b \<in> set (group_keys (map Hotel_Country_Name df) (\<lambda>c. c \<noteq> NaN) sort_rank)"
    using assms(2) by (auto simp: group_keys_set complete_def)
  then show ?thesis by (auto simp: groupby_agg_def)
qed

lemma top_country_first:
  "top_country (analyze_booking_data argsort df)
     = (case country_data (analyze_booking_data argsort df) of [] \<Rightarrow> Str ''N/A'' | r # _ \<Rightarrow> Country r)"
  by (simp add: analyze_booking_data_def Let_def)

lemma insort_key_map:
  "insort_key f (h x) (map h xs) = map h (insort_key (\<lambda>x. f (h x)) x xs)"
  by (induction xs) simp_all

lemma sort_key_map:
  "sort_key f (map h xs) = map h (sort_key (\<lambda>x. f (h x)) xs)"
  by (induction xs) (simp_all add: insort_key_map)

lemma groupby_agg_keys:
  "map Country (groupby_agg df) = group_keys (map Hotel_Country_Name df) (\<lambda>c. c \<noteq> NaN) sort_rank"
  by (simp add: groupby_agg_def agg_row_def Let_def o_def)

lemma groupby_agg_counts:
  "map Total_Bookings (groupby_agg df)
     = map (\<lambda>k. agg_count (map Guests (filter (\<lambda>b. Hotel_Country_Name b = k) df)))
         (group_keys (map Hotel_Country_Name df) (\<lambda>c. c \<noteq> NaN) sort_rank)"
  by (simp add: groupby_agg_def agg_row_def Let_def o_def)

lemma country_data_countries:
  assumes "argsort_ok argsort"
  shows "map Country (country_data (analyze_booking_data argsort df))
       = take_rows (map Country (groupby_agg df))
           (nargsort argsort False (map Total_Bookings (groupby_agg df)))"
proof -
  let ?g = "groupby_agg df"
  let ?idx = "nargsort argsort False (map Total_Bookings ?g)"
  have "map (\<lambda>i. Country (?g ! i)) ?idx = map (\<lambda>i. map Country ?g ! i) ?idx"
  proof (rule map_cong[OF refl])
    fix i assume "i \<in> set ?idx"
    then have "i < length ?g" using nargsort_in_range[OF assms] by fastforce
    then show "Country (?g ! i) = map Country ?g ! i" by simp
  qed
  then show ?thesis
    by (simp add: analyze_booking_data_def Let_def take_rows_def o_def)
qed

lemma spec_ranking_countries:
  "map Country (spec_ranking (groupby_agg df))
     = map fst (sort_key (\<lambda>p. - snd p)
         (zip (map Country (groupby_agg df)) (map Total_Bookings (groupby_agg df))))"
proof -
  have "zip (map Country (groupby_agg df)) (map Total_Bookings (groupby_agg df))
          = map (\<lambda>r. (Country r, Total_Bookings r)) (groupby_agg df)"
    by (simp add: zip_map_map zip_same_conv_map)
  then show ?thesis
    by (simp add: spec_ranking_def sort_key_map o_def)
qed

lemma tied_keys:
  "group_keys (map Hotel_Country_Name
        (map (\<lambda>c. \<lparr>Hotel_Country_Name = Str [c], Guests = Some 1, Room_Nights = Some 1\<rparr>)
           ''AABCDDEFGGHIJJKLMMNOPPQRSSTUVVWXYYZabbcdeefghhijkklmnnopqqrsttuvwwxyzz'')) (\<lambda>c. c \<noteq> NaN) sort_rank
     = map (\<lambda>c. Str [c]) ''ABCDEFGHIJKLMNOPQRSTUVWXYZabcdefghijklmnopqrstuvwxyz''"
  by code_simp

lemma tied_counts:
  "map (\<lambda>k. agg_count (map Guests (filter (\<lambda>b. Hotel_Country_Name b = k)
        (map (\<lambda>c. \<lparr>Hotel_Country_Name = Str [c], Guests = Some 1, Room_Nights = Some 1\<rparr>)
           ''AABCDDEFGGHIJJKLMMNOPPQRSSTUVVWXYYZabbcdeefghhijkklmnnopqqrsttuvwwxyzz''))))
     (map (\<lambda>c. Str [c]) ''ABCDEFGHIJKLMNOPQRSTUVWXYZabcdefghijklmnopqrstuvwxyz'')
     = [2, 1, 1, 2, 1, 1, 2, 1, 1, 2, 1, 1, 2, 1, 1, 2, 1, 1, 2, 1, 1, 2, 1, 1, 2, 1, 1, 2, 1, 1, 2, 1, 1, 2, 1, 1, 2, 1, 1, 2, 1, 1, 2, 1, 1, 2, 1, 1, 2, 1, 1, 2]"
  by code_simp

lemma tied_unstable:
  "take_rows (map (\<lambda>c. Str [c]) ''ABCDEFGHIJKLMNOPQRSTUVWXYZabcdefghijklmnopqrstuvwxyz'')
     (nargsort unstable_argsort False
        [2, 1, 1, 2, 1, 1, 2, 1, 1, 2, 1, 1, 2, 1, 1, 2, 1, 1, 2, 1, 1, 2, 1, 1, 2, 1, 1, 2, 1, 1, 2, 1, 1, 2, 1, 1, 2, 1, 1, 2, 1, 1, 2, 1, 1, 2, 1, 1, 2, 1, 1, 2])
     = map (\<lambda>c. Str [c]) ''zwtqnkhebYVSPMJGDAyxvusrpomljigfdcaZXWUTRQONLKIHFECB''"
  by code_simp

lemma tied_spec:
  "map fst (sort_key (\<lambda>p. - snd p)
      (zip (map (\<lambda>c. Str [c]) ''ABCDEFGHIJKLMNOPQRSTUVWXYZabcdefghijklmnopqrstuvwxyz'')
        [2, 1, 1, 2, 1, 1, 2, 1, 1, 2, 1, 1, 2, 1, 1, 2, 1, 1, 2, 1, 1, 2, 1, 1, 2, 1, 1, 2, 1, 1, 2, 1, 1, 2, 1, 1, 2, 1, 1, 2, 1, 1, 2, 1, 1, 2, 1, 1, 2, 1, 1, 2 :: int]))
     = map (\<lambda>c. Str [c]) ''ADGJMPSVYbehknqtwzBCEFHIKLNOQRTUWXZacdfgijlmoprsuvxy''"
  by code_simp

lemma complete_coerce_row: "complete (coerce_row to_num cols r) = valid_row to_num cols r"
  by (simp add: complete_def coerce_row_def valid_row_def)

lemma dropna_coerce:
  "dropna (map (coerce_row to_num cols) rs) = map (coerce_row to_num cols) (filter (valid_row to_num cols) rs)"
  by (simp add: dropna_def filter_map o_def complete_coerce_row)

lemma clean_Inr:
  assumes "clean to_num df = Inr cleaned"
  shows "length (columns df) = 3"
    and "cleaned = map (coerce_row to_num (columns df)) (filter (valid_row to_num (columns df)) (rows df))"
    and "cleaned \<noteq> []"
  using assms by (auto simp: clean_def Let_def dropna_coerce split: if_splits)

lemma analysis_total: "total_bookings (analyze_booking_data argsort df) = length df"
  by (simp add: analyze_booking_data_def Let_def)

lemma groupby_agg_countries:
  "Country ` set (groupby_agg df) = {c \<in> Hotel_Country_Name ` set df. c \<noteq> NaN}"
  by (auto simp: groupby_agg_def group_keys_set agg_row_def Let_def image_iff)

lemma coerce_positional:
  assumes "length cols = 3" "length cols' = 3" "map r cols = map r' cols'"
  shows "coerce_row to_num cols r = coerce_row to_num cols' r'"
proof -
  have "\<forall>i<3. r (cols ! i) = r' (cols' ! i)"
    using assms by (metis length_map nth_map)
  then show ?thesis by (simp add: coerce_row_def)
qed

lemma map_coerce_positional:
  assumes "length cols = 3" "length cols' = 3"
    and "map (\<lambda>r. map r cols) rs = map (\<lambda>r. map r cols') rs'"
  shows "map (coerce_row to_num cols) rs = map (coerce_row to_num cols') rs'"
  using assms(3)
proof (induction rs arbitrary: rs')
  case Nil
  then show ?case by simp
next
  case (Cons r rs)
  then obtain r' rs'' where r': "rs' = r' # rs''" by (cases rs') auto
  with Cons.prems have "map r cols = map r' cols'"
    and "map (\<lambda>r. map r cols) rs = map (\<lambda>r. map r cols') rs''" by auto
  then show ?case
    using Cons.IH[of rs''] coerce_positional[OF assms(1,2), of r r' to_num] by (simp add: r')
qed

lemma main_positional:
  assumes "length (columns df) = 3" "length (columns df') = 3"
    and "map (\<lambda>r. map r (columns df)) (rows df) = map (\<lambda>r. map r (columns df')) (rows df')"
  shows "main to_num argsort df = main to_num argsort df'"
  using map_coerce_positional[OF assms, of to_num] assms(1,2) by (simp add: main_def clean_def)

lemma main_schema_error:
  "(\<exists>n. main to_num argsort df = Inl (SchemaError n)) \<longleftrightarrow> length (columns df) \<noteq> 3"
  by (auto simp: main_def clean_def Let_def split: sum.splits)

lemma script_missing_columns:
  "script to_datetime argsort df time_period = Inl MissingColumns
     \<longleftrightarrow> \<not> set required_columns \<subseteq> set (columns df)"
  by (auto simp: script_def list_all_iff split: prod.splits)

section \<open>The country report: properties\<close>

text \<open>
  Claim C1. Whenever the rows handed to the aggregator are cleaned (no row has a missing
  country, guest count or night count), the booking counts of the country table add up
  to the number of rows. This holds for the empty frame too; \<^verbatim>\<open>main\<close> never passes one.
\<close>

theorem bookings_sum_to_record_count:
  assumes "argsort_ok argsort" and "\<forall>b\<in>set df. complete b"
  shows "sum_list (map Total_Bookings (country_data (analyze_booking_data argsort df)))
           = int (length df)"
  using sum_list_perm[OF country_data_perm[OF assms(1)], of Total_Bookings df]
    grouped_counts_total[OF assms(2)] by simp

theorem bookings_sum_to_record_count_witness:
  "sum_list (map Total_Bookings (country_data (analyze_booking_data stable_argsort
     [\<lparr>Hotel_Country_Name = Str ''France'', Guests = Some 2, Room_Nights = Some 3\<rparr>,
      \<lparr>Hotel_Country_Name = Str ''Spain'', Guests = Some 4, Room_Nights = Some 2\<rparr>,
      \<lparr>Hotel_Country_Name = Str ''France'', Guests = Some 1, Room_Nights = Some 5\<rparr>]))) = 3"
  using bookings_sum_to_record_count[OF stable_argsort_ok, of
     "[\<lparr>Hotel_Country_Name = Str ''France'', Guests = Some 2, Room_Nights = Some 3\<rparr>,
       \<lparr>Hotel_Country_Name = Str ''Spain'', Guests = Some 4, Room_Nights = Some 2\<rparr>,
       \<lparr>Hotel_Country_Name = Str ''France'', Guests = Some 1, Room_Nights = Some 5\<rparr>]"]
  by (simp add: complete_def)

text \<open>
  Claim C4, as the program has it. The country table is sorted by descending booking
  count and holds exactly the groups; for a cleaned frame that is not empty the top
  country is the country of the first row, whose count no other row exceeds; for the
  empty frame it is \<^verbatim>\<open>N/A\<close>. The order of rows of equal count is the one numpy's sort
  leaves, which the next theorem shows need not be the group order.
\<close>

theorem country_table_descending:
  assumes "argsort_ok argsort"
  shows "sorted (rev (map Total_Bookings (country_data (analyze_booking_data argsort df))))
       \<and> mset (country_data (analyze_booking_data argsort df)) = mset (groupby_agg df)
       \<and> (df \<noteq> [] \<and> (\<forall>b\<in>set df. complete b) \<longrightarrow>
            (\<exists>r rs. country_data (analyze_booking_data argsort df) = r # rs
                  \<and> top_country (analyze_booking_data argsort df) = Country r
                  \<and> (\<forall>r'\<in>set rs. Total_Bookings r' \<le> Total_Bookings r)))
       \<and> top_country (analyze_booking_data argsort []) = Str ''N/A''"
proof (intro conjI impI)
  let ?cd = "country_data (analyze_booking_data argsort df)"
  show d: "sorted (rev (map Total_Bookings ?cd))" by (rule country_data_descending[OF assms])
  show "mset ?cd = mset (groupby_agg df)" by (rule country_data_perm[OF assms])
  show "top_country (analyze_booking_data argsort []) = Str ''N/A''"
  proof -
    have "mset (country_data (analyze_booking_data argsort [])) = mset (groupby_agg [])"
      by (rule country_data_perm[OF assms])
    then have "country_data (analyze_booking_data argsort []) = []"
      by (simp add: groupby_agg_def group_keys_def)
    then show ?thesis by (simp add: top_country_first)
  qed
  assume ne: "df \<noteq> [] \<and> (\<forall>b\<in>set df. complete b)"
  have "mset ?cd = mset (groupby_agg df)" by (rule country_data_perm[OF assms])
  moreover have "groupby_agg df \<noteq> []" using groupby_agg_nonempty ne by blast
  ultimately have "?cd \<noteq> []" by auto
  then obtain r rs where c: "?cd = r # rs" by (cases ?cd) auto
  have "\<forall>r'\<in>set rs. Total_Bookings r' \<le> Total_Bookings r"
    using d by (auto simp: c sorted_append)
  then show "\<exists>r rs. ?cd = r # rs \<and> top_country (analyze_booking_data argsort df) = Country r
                  \<and> (\<forall>r'\<in>set rs. Total_Bookings r' \<le> Total_Bookings r)"
    using c by (simp add: top_country_first)
qed

theorem country_table_descending_witness:
  "sorted (rev (map Total_Bookings (country_data (analyze_booking_data stable_argsort
      [\<lparr>Hotel_Country_Name = Str ''Spain'', Guests = Some 4, Room_Nights = Some 2\<rparr>,
       \<lparr>Hotel_Country_Name = Str ''France'', Guests = Some 2, Room_Nights = Some 3\<rparr>,
       \<lparr>Hotel_Country_Name = Str ''France'', Guests = Some 1, Room_Nights = Some 5\<rparr>]))))
   \<and> (\<exists>r rs. country_data (analyze_booking_data stable_argsort
      [\<lparr>Hotel_Country_Name = Str ''Spain'', Guests = Some 4, Room_Nights = Some 2\<rparr>,
       \<lparr>Hotel_Country_Name = Str ''France'', Guests = Some 2, Room_Nights = Some 3\<rparr>,
       \<lparr>Hotel_Country_Name = Str ''France'', Guests = Some 1, Room_Nights = Some 5\<rparr>]) = r # rs
      \<and> top_country (analyze_booking_data stable_argsort
      [\<lparr>Hotel_Country_Name = Str ''Spain'', Guests = Some 4, Room_Nights = Some 2\<rparr>,
       \<lparr>Hotel_Country_Name = Str ''France'', Guests = Some 2, Room_Nights = Some 3\<rparr>,
       \<lparr>Hotel_Country_Name = Str ''France'', Guests = Some 1, Room_Nights = Some 5\<rparr>]) = Country r
      \<and> (\<forall>r'\<in>set rs. Total_Bookings r' \<le> Total_Bookings r))"
  using country_table_descending[OF stable_argsort_ok, of
      "[\<lparr>Hotel_Country_Name = Str ''Spain'', Guests = Some 4, Room_Nights = Some 2\<rparr>,
       \<lparr>Hotel_Country_Name = Str ''France'', Guests = Some 2, Room_Nights = Some 3\<rparr>,
       \<lparr>Hotel_Country_Name = Str ''France'', Guests = Some 1, Room_Nights = Some 5\<rparr>]"]
  by (simp add: complete_def)

text \<open>
  Claim C4 as stated fails. Fifty-two countries, \<^verbatim>\<open>A\<close> to \<^verbatim>\<open>Z\<close> and \<^verbatim>\<open>a\<close> to \<^verbatim>\<open>z\<close>, every third
  one (\<^verbatim>\<open>A\<close>, \<^verbatim>\<open>D\<close>, \<^verbatim>\<open>G\<close>, ...) with two bookings and the others with one, and a sort that
  keeps the library's promise, give a table that is not the specification's ranking: the
  countries of equal count do not come in group order.
\<close>

theorem stable_ties_counterexample:
  "argsort_ok unstable_argsort \<and>
   country_data (analyze_booking_data unstable_argsort
        (map (\<lambda>c. \<lparr>Hotel_Country_Name = Str [c], Guests = Some 1, Room_Nights = Some 1\<rparr>)
           ''AABCDDEFGGHIJJKLMMNOPPQRSSTUVVWXYYZabbcdeefghhijkklmnnopqqrsttuvwwxyzz''))
     \<noteq> spec_ranking (groupby_agg
        (map (\<lambda>c. \<lparr>Hotel_Country_Name = Str [c], Guests = Some 1, Room_Nights = Some 1\<rparr>)
           ''AABCDDEFGGHIJJKLMMNOPPQRSSTUVVWXYYZabbcdeefghhijkklmnnopqqrsttuvwwxyzz''))"
proof
  show "argsort_ok unstable_argsort" by (rule unstable_argsort_ok)
  define df where "df = map (\<lambda>c. \<lparr>Hotel_Country_Name = Str [c], Guests = Some 1, Room_Nights = Some 1\<rparr>)
           ''AABCDDEFGGHIJJKLMMNOPPQRSSTUVVWXYYZabbcdeefghhijkklmnnopqqrsttuvwwxyzz''"
  have keys: "map Country (groupby_agg df) = map (\<lambda>c. Str [c]) ''ABCDEFGHIJKLMNOPQRSTUVWXYZabcdefghijklmnopqrstuvwxyz''"
    unfolding df_def by (simp only: groupby_agg_keys tied_keys)
  have counts: "map Total_Bookings (groupby_agg df)
      = [2, 1, 1, 2, 1, 1, 2, 1, 1, 2, 1, 1, 2, 1, 1, 2, 1, 1, 2, 1, 1, 2, 1, 1, 2, 1, 1, 2, 1, 1, 2, 1, 1, 2, 1, 1, 2, 1, 1, 2, 1, 1, 2, 1, 1, 2, 1, 1, 2, 1, 1, 2]"
    unfolding df_def by (simp only: groupby_agg_counts tied_keys tied_counts)
  have l: "map Country (country_data (analyze_booking_data unstable_argsort df))
      = map (\<lambda>c. Str [c]) ''zwtqnkhebYVSPMJGDAyxvusrpomljigfdcaZXWUTRQONLKIHFECB''"
    by (simp only: country_data_countries[OF unstable_argsort_ok] keys counts tied_unstable)
  have r: "map Country (spec_ranking (groupby_agg df))
      = map (\<lambda>c. Str [c]) ''ADGJMPSVYbehknqtwzBCEFHIKLNOQRTUWXZacdfgijlmoprsuvxy''"
    by (simp only: spec_ranking_countries keys counts tied_spec)
  have "country_data (analyze_booking_data unstable_argsort df) \<noteq> spec_ranking (groupby_agg df)"
  proof
    assume "country_data (analyze_booking_data unstable_argsort df) = spec_ranking (groupby_agg df)"
    then have "map Country (country_data (analyze_booking_data unstable_argsort df))
        = map Country (spec_ranking (groupby_agg df))" by simp
    then show False by (simp only: l r) simp
  qed
  then show "country_data (analyze_booking_data unstable_argsort
        (map (\<lambda>c. \<lparr>Hotel_Country_Name = Str [c], Guests = Some 1, Room_Nights = Some 1\<rparr>)
           ''AABCDDEFGGHIJJKLMMNOPPQRSSTUVVWXYYZabbcdeefghhijkklmnnopqqrsttuvwwxyzz''))
     \<noteq> spec_ranking (groupby_agg
        (map (\<lambda>c. \<lparr>Hotel_Country_Name = Str [c], Guests = Some 1, Room_Nights = Some 1\<rparr>)
           ''AABCDDEFGGHIJJKLMMNOPPQRSSTUVVWXYYZabbcdeefghhijkklmnnopqqrsttuvwwxyzz''))"
    unfolding df_def .
qed

text \<open>
  Claim C6. A text that does not spell a number becomes a missing value; the cleaning
  stops with \<open>EmptyDatasetError\<close> exactly when every row lacks the country or one of its
  two numbers; otherwise the cleaned rows are the coerced valid rows, in order, none
  with a missing number (a row with a bad number is left out, its number is not set to 0).
\<close>

theorem non_numeric_rows_dropped:
  "(to_num s = None \<longrightarrow> to_numeric to_num (Str s) = None)
   \<and> (length (columns df) = 3 \<longrightarrow>
        (clean to_num df = Inl EmptyDatasetError
           \<longleftrightarrow> (\<forall>r\<in>set (rows df).
                  r (columns df ! 0) = NaN \<or> to_numeric to_num (r (columns df ! 1)) = None
                    \<or> to_numeric to_num (r (columns df ! 2)) = None)))
   \<and> (\<forall>cleaned. clean to_num df = Inr cleaned \<longrightarrow>
        cleaned \<noteq> []
        \<and> (\<forall>b\<in>set cleaned. Guests b \<noteq> None \<and> Room_Nights b \<noteq> None)
        \<and> cleaned = map (coerce_row to_num (columns df))
                      (filter (\<lambda>r. r (columns df ! 0) \<noteq> NaN
                                 \<and> to_numeric to_num (r (columns df ! 1)) \<noteq> None
                                 \<and> to_numeric to_num (r (columns df ! 2)) \<noteq> None) (rows df)))"
proof (intro conjI impI allI)
  show "to_num s = None \<Longrightarrow> to_numeric to_num (Str s) = None" by simp
next
  assume "length (columns df) = 3"
  then show "clean to_num df = Inl EmptyDatasetError
           \<longleftrightarrow> (\<forall>r\<in>set (rows df).
                  r (columns df ! 0) = NaN \<or> to_numeric to_num (r (columns df ! 1)) = None
                    \<or> to_numeric to_num (r (columns df ! 2)) = None)"
    by (auto simp: clean_def Let_def dropna_coerce filter_empty_conv valid_row_def)
next
  fix cleaned assume c: "clean to_num df = Inr cleaned"
  show "cleaned \<noteq> []" using clean_Inr(3)[OF c] .
  show "\<forall>b\<in>set cleaned. Guests b \<noteq> None \<and> Room_Nights b \<noteq> None"
    using clean_Inr(2)[OF c] by (auto simp: valid_row_def coerce_row_def)
  show "cleaned = map (coerce_row to_num (columns df))
                      (filter (\<lambda>r. r (columns df ! 0) \<noteq> NaN
                                 \<and> to_numeric to_num (r (columns df ! 1)) \<noteq> None
                                 \<and> to_numeric to_num (r (columns df ! 2)) \<noteq> None) (rows df))"
    using clean_Inr(2)[OF c] by (simp add: valid_row_def[abs_def])
qed

theorem non_numeric_rows_dropped_witness:
  "to_numeric (\<lambda>_. None) (Str ''two'') = None
   \<and> clean (\<lambda>_. None)
       \<lparr>columns = [''Country'', ''Guests'', ''Nights''],
        rows = [(\<lambda>_. Num 3)(''Country'' := Str ''France'', ''Guests'' := Str ''two'')]\<rparr>
     = Inl EmptyDatasetError"
  using non_numeric_rows_dropped[of "\<lambda>_. None" "''two''"
      "\<lparr>columns = [''Country'', ''Guests'', ''Nights''],
        rows = [(\<lambda>_. Num 3)(''Country'' := Str ''France'', ''Guests'' := Str ''two'')]\<rparr>"]
  by simp

lemma scenario_country_data:
  assumes "argsort_ok argsort"
  shows "country_data (analyze_booking_data argsort
     [\<lparr>Hotel_Country_Name = Str ''France'', Guests = Some 2, Room_Nights = Some 3\<rparr>,
      \<lparr>Hotel_Country_Name = Str ''France'', Guests = Some 1, Room_Nights = Some 5\<rparr>,
      \<lparr>Hotel_Country_Name = Str ''Spain'', Guests = Some 4, Room_Nights = Some 2\<rparr>])
    = [\<lparr>Country = Str ''France'', Total_Bookings = 2,
          Avg_Guests = Some (3 / 2), Total_Guests = 3,
          Avg_Stay_Nights = Some 4, Total_Nights = 8\<rparr>,
       \<lparr>Country = Str ''Spain'', Total_Bookings = 1, Avg_Guests = Some 4,
          Total_Guests = 4, Avg_Stay_Nights = Some 2, Total_Nights = 2\<rparr>]"
  by (simp add: analyze_booking_data_def Let_def scenario_grouped take_rows_def nargsort_desc_two[OF assms])

text \<open>
  Claim C9. On the rows (France, 2, 3), (France, 1, 5), (Spain, 4, 2) the country table is
  France with count 2, guests 3 in all and 1.5 on average, nights 8 in all and 4 on
  average, then Spain with count 1, guests 4 and 4, nights 2 and 2; France is the top
  country. The averages are the values \<^verbatim>\<open>round(2)\<close> leaves.
\<close>

theorem scenario_one:
  assumes "argsort_ok argsort"
  shows "country_data (analyze_booking_data argsort
     [\<lparr>Hotel_Country_Name = Str ''France'', Guests = Some 2, Room_Nights = Some 3\<rparr>,
      \<lparr>Hotel_Country_Name = Str ''France'', Guests = Some 1, Room_Nights = Some 5\<rparr>,
      \<lparr>Hotel_Country_Name = Str ''Spain'', Guests = Some 4, Room_Nights = Some 2\<rparr>])
    = [\<lparr>Country = Str ''France'', Total_Bookings = 2,
          Avg_Guests = Some (3 / 2), Total_Guests = 3,
          Avg_Stay_Nights = Some 4, Total_Nights = 8\<rparr>,
       \<lparr>Country = Str ''Spain'', Total_Bookings = 1, Avg_Guests = Some 4,
          Total_Guests = 4, Avg_Stay_Nights = Some 2, Total_Nights = 2\<rparr>]
    \<and> top_country (analyze_booking_data argsort
     [\<lparr>Hotel_Country_Name = Str ''France'', Guests = Some 2, Room_Nights = Some 3\<rparr>,
      \<lparr>Hotel_Country_Name = Str ''France'', Guests = Some 1, Room_Nights = Some 5\<rparr>,
      \<lparr>Hotel_Country_Name = Str ''Spain'', Guests = Some 4, Room_Nights = Some 2\<rparr>]) = Str ''France''"
  using scenario_country_data[OF assms] by (simp add: top_country_first)

theorem scenario_one_witness:
  "country_data (analyze_booking_data stable_argsort
     [\<lparr>Hotel_Country_Name = Str ''France'', Guests = Some 2, Room_Nights = Some 3\<rparr>,
      \<lparr>Hotel_Country_Name = Str ''France'', Guests = Some 1, Room_Nights = Some 5\<rparr>,
      \<lparr>Hotel_Country_Name = Str ''Spain'', Guests = Some 4, Room_Nights = Some 2\<rparr>])
    = [\<lparr>Country = Str ''France'', Total_Bookings = 2,
          Avg_Guests = Some (3 / 2), Total_Guests = 3,
          Avg_Stay_Nights = Some 4, Total_Nights = 8\<rparr>,
       \<lparr>Country = Str ''Spain'', Total_Bookings = 1, Avg_Guests = Some 4,
          Total_Guests = 4, Avg_Stay_Nights = Some 2, Total_Nights = 2\<rparr>]
    \<and> top_country (analyze_booking_data stable_argsort
     [\<lparr>Hotel_Country_Name = Str ''France'', Guests = Some 2, Room_Nights = Some 3\<rparr>,
      \<lparr>Hotel_Country_Name = Str ''France'', Guests = Some 1, Room_Nights = Some 5\<rparr>,
      \<lparr>Hotel_Country_Name = Str ''Spain'', Guests = Some 4, Room_Nights = Some 2\<rparr>]) = Str ''France''"
  by (rule scenario_one[OF stable_argsort_ok])

text \<open>
  Claim C10. When \<^verbatim>\<open>main\<close> reaches the analysis, the bookings it counts are the rows with
  a country and two numbers: a row without country is counted nowhere, not in the total
  and not in the country table, whose counts add up to that total.
\<close>

theorem missing_country_rows_dropped:
  assumes "main to_num argsort df = Inr a" and "argsort_ok argsort"
  shows "total_bookings a
           = length (filter (\<lambda>r. r (columns df ! 0) \<noteq> NaN
                               \<and> to_numeric to_num (r (columns df ! 1)) \<noteq> None
                               \<and> to_numeric to_num (r (columns df ! 2)) \<noteq> None) (rows df))
       \<and> sum_list (map Total_Bookings (country_data a)) = int (total_bookings a)
       \<and> (\<forall>r\<in>set (country_data a). Country r \<noteq> NaN)"
proof -
  obtain cleaned where c: "clean to_num df = Inr cleaned" and a: "a = analyze_booking_data argsort cleaned"
    using assms(1) by (auto simp: main_def split: sum.splits)
  have cl: "cleaned = map (coerce_row to_num (columns df)) (filter (valid_row to_num (columns df)) (rows df))"
    using clean_Inr(2)[OF c] .
  have comp: "\<forall>b\<in>set cleaned. complete b"
    by (auto simp: cl complete_coerce_row)
  have 1: "total_bookings a = length (filter (valid_row to_num (columns df)) (rows df))"
    by (simp add: a analysis_total cl)
  have 2: "sum_list (map Total_Bookings (country_data a)) = int (total_bookings a)"
    using grouped_counts_total[OF comp] sum_list_perm[OF country_data_perm[OF assms(2)], of Total_Bookings cleaned]
    by (simp add: a analysis_total)
  have "set (country_data a) = set (groupby_agg cleaned)"
    using country_data_perm[OF assms(2), of cleaned] a by (metis set_mset_mset)
  then have 3: "\<forall>r\<in>set (country_data a). Country r \<noteq> NaN"
    using groupby_agg_countries[of cleaned] by blast
  show ?thesis using 1 2 3 by (simp add: valid_row_def[abs_def])
qed

theorem missing_country_rows_dropped_witness:
  "\<exists>a. main (\<lambda>_. None) stable_argsort
       \<lparr>columns = [''Country'', ''Guests'', ''Nights''],
        rows = [(\<lambda>_. Num 3)(''Country'' := NaN), (\<lambda>_. Num 2)(''Country'' := Str ''Spain'')]\<rparr> = Inr a
     \<and> total_bookings a = 1
     \<and> sum_list (map Total_Bookings (country_data a)) = 1"
proof -
  let ?df = "\<lparr>columns = [''Country'', ''Guests'', ''Nights''],
        rows = [(\<lambda>_. Num 3)(''Country'' := NaN), (\<lambda>_. Num 2)(''Country'' := Str ''Spain'')]\<rparr>"
  let ?a = "analyze_booking_data stable_argsort
              [\<lparr>Hotel_Country_Name = Str ''Spain'', Guests = Some 2, Room_Nights = Some 2\<rparr>]"
  have m: "main (\<lambda>_. None) stable_argsort ?df = Inr ?a"
    by (simp add: main_def clean_def dropna_def complete_def coerce_row_def)
  show ?thesis
    using missing_country_rows_dropped[OF m stable_argsort_ok] m by simp
qed

text \<open>
  Claim C8. \<^verbatim>\<open>main\<close> stops with \<open>SchemaError\<close> exactly when the frame does not have three
  columns; with three it reads them by position, so two frames with the same cells
  under different headers give the same result. The status report stops with
  \<open>MissingColumns\<close> exactly when one of its three columns is not among the columns, in
  whatever order they come.
\<close>

theorem schema_checked:
  "((\<exists>n. main to_num argsort df = Inl (SchemaError n)) \<longleftrightarrow> length (columns df) \<noteq> 3)
   \<and> (length (columns df) = 3 \<and> length (columns df') = 3
        \<and> map (\<lambda>r. map r (columns df)) (rows df) = map (\<lambda>r. map r (columns df')) (rows df')
       \<longrightarrow> main to_num argsort df = main to_num argsort df')
   \<and> (script to_datetime argsort dfb time_period = Inl MissingColumns
        \<longleftrightarrow> \<not> {''Booking Week'', ''Booking Month'', ''Booking Status''} \<subseteq> set (columns dfb))"
  using main_schema_error[of to_num argsort df] main_positional[of df df' to_num argsort]
    script_missing_columns[of to_datetime argsort dfb time_period]
  by (simp add: required_columns_def)

theorem schema_checked_witness:
  "main (\<lambda>_. None) stable_argsort
      \<lparr>columns = [''Country'', ''Guests'', ''Nights''],
       rows = [(\<lambda>_. Num 2)(''Country'' := Str ''Spain'')]\<rparr>
    = main (\<lambda>_. None) stable_argsort
      \<lparr>columns = [''a'', ''b'', ''c''],
       rows = [(\<lambda>_. Num 2)(''a'' := Str ''Spain'')]\<rparr>
   \<and> (\<exists>n. main (\<lambda>_. None) stable_argsort \<lparr>columns = [''a'', ''b''], rows = []\<rparr> = Inl (SchemaError n))
   \<and> script (\<lambda>_ _. None) stable_argsort
        \<lparr>columns = [''Booking Status'', ''Booking Week''], rows = []\<rparr> ''Month'' = Inl MissingColumns"
  using schema_checked[of "\<lambda>_. None" stable_argsort
      "\<lparr>columns = [''Country'', ''Guests'', ''Nights''],
       rows = [(\<lambda>_. Num 2)(''Country'' := Str ''Spain'')]\<rparr>"
      "\<lparr>columns = [''a'', ''b'', ''c''],
       rows = [(\<lambda>_. Num 2)(''a'' := Str ''Spain'')]\<rparr>"
      "\<lambda>_ _. None" "\<lparr>columns = [''Booking Status'', ''Booking Week''], rows = []\<rparr>" "''Month''"]
    schema_checked[of "\<lambda>_. None" stable_argsort "\<lparr>columns = [''a'', ''b''], rows = []\<rparr>"]
  by simp

section \<open>The booking-status report: lemmas\<close>

lemma time_column_not_Time_Date: "time_column_of tp \<noteq> ''Time_Date''"
  by (simp add: time_column_of_def)

lemma time_date_NaN: "time_date tdt tp NaN = NaN"
  by (simp add: time_date_def)

lemma sort_values_perm:
  assumes "argsort_ok argsort"
  shows "mset (sort_values argsort rs) = mset rs"
proof -
  have "mset (nargsort argsort True (map (\<lambda>r. instant (r ''Time_Date'')) rs)) = mset [0..<length rs]"
    using nargsort_perm[OF assms, of True "map (\<lambda>r. instant (r ''Time_Date'')) rs"] by simp
  then show ?thesis by (simp add: sort_values_def take_rows_perm)
qed

lemma sort_values_sorted:
  assumes "argsort_ok argsort"
  shows "sorted (map (\<lambda>r. instant (r ''Time_Date'')) (sort_values argsort rs))"
proof -
  let ?items = "map (\<lambda>r. instant (r ''Time_Date'')) rs"
  let ?idx = "nargsort argsort True ?items"
  have b: "map (\<lambda>i. instant ((rs ! i) ''Time_Date'')) ?idx = map (\<lambda>i. ?items ! i) ?idx"
  proof (rule map_cong[OF refl])
    fix i assume "i \<in> set ?idx"
    then have "i < length ?items"
      using perm_indices_in_range[OF nargsort_perm[OF assms]] by blast
    then show "instant ((rs ! i) ''Time_Date'') = ?items ! i" by simp
  qed
  have a: "map (\<lambda>r. instant (r ''Time_Date'')) (sort_values argsort rs)
      = map (\<lambda>i. instant ((rs ! i) ''Time_Date'')) ?idx"
    by (simp add: sort_values_def take_rows_def o_def)
  have "map (\<lambda>r. instant (r ''Time_Date'')) (sort_values argsort rs) = map (\<lambda>i. ?items ! i) ?idx"
    using a b by (rule trans)
  then show ?thesis
    using nargsort_asc_sorted[OF assms, of ?items] by (simp only:)
qed

lemma drop_duplicates_subset: "set (drop_duplicates c seen rs) \<subseteq> set rs"
  by (induction rs arbitrary: seen) auto

lemma drop_duplicates_key_iff:
  "k \<in> (\<lambda>r. r c) ` set (drop_duplicates c seen rs) \<longleftrightarrow> k \<in> (\<lambda>r. r c) ` set rs \<and> k \<notin> set seen"
proof (induction rs arbitrary: seen)
  case Nil
  then show ?case by simp
next
  case (Cons r rs)
  show ?case
  proof (cases "r c \<in> set seen")
    case True
    then show ?thesis using Cons[of seen] by (simp add: image_iff) blast
  next
    case False
    then show ?thesis using Cons[of "r c # seen"] by (simp add: image_iff) blast
  qed
qed

lemma drop_duplicates_keys:
  "(\<lambda>r. r c) ` set (drop_duplicates c seen rs) = (\<lambda>r. r c) ` set rs - set seen"
  using drop_duplicates_key_iff[of _ c seen rs] by blast

lemma drop_duplicates_distinct:
  "distinct (map (\<lambda>r. r c) (drop_duplicates c seen rs))"
proof (induction rs arbitrary: seen)
  case Nil
  then show ?case by simp
next
  case (Cons r rs)
  have "r c \<notin> (\<lambda>r. r c) ` set (drop_duplicates c (r c # seen) rs)"
    by (simp add: drop_duplicates_keys)
  then show ?case using Cons by auto
qed

lemma map_of_graph:
  "map_of (map (\<lambda>k. (k, g k)) ks) k = (if k \<in> set ks then Some (g k) else None)"
  by (induction ks) auto

lemma summary_keys:
  "fst ` set (bookings_summary tc rs)
     = {k \<in> (\<lambda>r. (r tc, r ''Booking Status'')) ` set rs. fst k \<noteq> NaN \<and> snd k \<noteq> NaN}"
  by (simp add: bookings_summary_def group_keys_set image_image)

lemma summary_lookup:
  "map_of (bookings_summary tc rs) (l, s)
     = (if (l, s) \<in> fst ` set (bookings_summary tc rs) then Some (count_cell tc rs l s) else None)"
proof -
  have "(\<lambda>r. (r tc, r ''Booking Status'') = (l, s)) = (\<lambda>r. r tc = l \<and> r ''Booking Status'' = s)"
    by auto
  then show ?thesis
    by (simp add: bookings_summary_def map_of_graph image_image count_cell_def)
qed

lemma cell_value:
  assumes "l \<noteq> NaN" "s \<noteq> NaN"
  shows "(case map_of (bookings_summary tc rs) (l, s) of Some n \<Rightarrow> n | None \<Rightarrow> 0) = count_cell tc rs l s"
proof (cases "(l, s) \<in> fst ` set (bookings_summary tc rs)")
  case True
  then show ?thesis by (simp add: summary_lookup)
next
  case False
  then have "\<forall>r\<in>set rs. \<not> (r tc = l \<and> r ''Booking Status'' = s)"
    using assms by (auto simp: summary_keys)
  then have "filter (\<lambda>r. r tc = l \<and> r ''Booking Status'' = s) rs = []"
    by (simp add: filter_empty_conv)
  then show ?thesis using False by (simp add: summary_lookup count_cell_def)
qed

lemma pivot_statuses:
  "set (statuses (pivot_fillna summary)) = snd ` fst ` set summary"
  by (simp add: pivot_fillna_def Let_def group_keys_set image_image)

lemma pivot_labels:
  "map fst (periods (pivot_fillna summary))
     = group_keys (map (\<lambda>e. fst (fst e)) summary) (\<lambda>_. True) sort_rank"
  by (simp add: pivot_fillna_def Let_def o_def)

lemma pivot_label_set:
  "fst ` set (periods (pivot_fillna summary)) = fst ` fst ` set summary"
proof -
  have "fst ` set (periods (pivot_fillna summary)) = set (map fst (periods (pivot_fillna summary)))"
    by simp
  also have "\<dots> = fst ` fst ` set summary"
    by (auto simp only: pivot_labels group_keys_set set_map image_iff)
  finally show ?thesis .
qed

lemma statuses_present:
  "s \<in> set (statuses (pivot_fillna (bookings_summary tc rs))) \<Longrightarrow> s \<noteq> NaN"
  using summary_keys[of tc rs] by (auto simp: pivot_statuses)

lemma pivot_periods:
  "periods (pivot_fillna (bookings_summary tc rs))
     = map (\<lambda>l. (l, map (count_cell tc rs l) (statuses (pivot_fillna (bookings_summary tc rs)))))
         (map fst (periods (pivot_fillna (bookings_summary tc rs))))"
proof -
  let ?summary = "bookings_summary tc rs"
  let ?cols = "statuses (pivot_fillna ?summary)"
  let ?idx = "group_keys (map (\<lambda>e. fst (fst e)) ?summary) (\<lambda>_. True) sort_rank"
  have idx: "l \<noteq> NaN" if "l \<in> set ?idx" for l
    using that summary_keys[of tc rs] by (auto simp: group_keys_set)
  have "map (\<lambda>l. (l, map (\<lambda>s. case map_of ?summary (l, s) of Some n \<Rightarrow> n | None \<Rightarrow> 0) ?cols)) ?idx
      = map (\<lambda>l. (l, map (count_cell tc rs l) ?cols)) ?idx"
  proof (rule map_cong[OF refl])
    fix l assume l: "l \<in> set ?idx"
    have "map (\<lambda>s. case map_of ?summary (l, s) of Some n \<Rightarrow> n | None \<Rightarrow> 0) ?cols
        = map (count_cell tc rs l) ?cols"
      by (rule map_cong[OF refl]) (simp add: cell_value[OF idx[OF l] statuses_present])
    then show "(l, map (\<lambda>s. case map_of ?summary (l, s) of Some n \<Rightarrow> n | None \<Rightarrow> 0) ?cols)
        = (l, map (count_cell tc rs l) ?cols)" by simp
  qed
  moreover have "periods (pivot_fillna ?summary)
      = map (\<lambda>l. (l, map (\<lambda>s. case map_of ?summary (l, s) of Some n \<Rightarrow> n | None \<Rightarrow> 0) ?cols)) ?idx"
    by (simp add: pivot_fillna_def Let_def)
  ultimately have p: "periods (pivot_fillna ?summary) = map (\<lambda>l. (l, map (count_cell tc rs l) ?cols)) ?idx"
    by (rule back_subst[where P = "\<lambda>x. periods (pivot_fillna ?summary) = x", rotated])
  have "map (\<lambda>l. (l, map (count_cell tc rs l) ?cols)) (map fst (periods (pivot_fillna ?summary)))
      = map (\<lambda>l. (l, map (count_cell tc rs l) ?cols)) ?idx"
    by (simp only: pivot_labels)
  then show ?thesis using p by (rule trans[OF _ sym, rotated])
qed

lemma absent_label_zero:
  assumes "l \<noteq> NaN" "l \<notin> fst ` set (periods (pivot_fillna (bookings_summary tc rs)))"
    and "s \<in> set (statuses (pivot_fillna (bookings_summary tc rs)))"
  shows "count_cell tc rs l s = 0"
proof -
  have "s \<noteq> NaN" using assms(3) by (rule statuses_present)
  have "(l, s) \<notin> fst ` set (bookings_summary tc rs)"
    using assms(2) by (force simp: pivot_label_set)
  then have "\<forall>r\<in>set rs. \<not> (r tc = l \<and> r ''Booking Status'' = s)"
    using assms(1) \<open>s \<noteq> NaN\<close> by (auto simp: summary_keys)
  then have "filter (\<lambda>r. r tc = l \<and> r ''Booking Status'' = s) rs = []"
    by (simp add: filter_empty_conv)
  then show ?thesis by (simp add: count_cell_def)
qed

lemma reindex_periods:
  assumes "\<forall>l\<in>set labels. l \<noteq> NaN"
  shows "periods (reindex labels (pivot_fillna (bookings_summary tc rs)))
     = map (\<lambda>l. (l, map (count_cell tc rs l) (statuses (pivot_fillna (bookings_summary tc rs))))) labels"
proof -
  let ?p = "pivot_fillna (bookings_summary tc rs)"
  let ?cols = "statuses ?p"
  have look: "map_of (periods ?p) l
      = (if l \<in> fst ` set (periods ?p) then Some (map (count_cell tc rs l) ?cols) else None)" for l
  proof -
    have "map_of (periods ?p) l = map_of (map (\<lambda>l. (l, map (count_cell tc rs l) ?cols)) (map fst (periods ?p))) l"
      using pivot_periods[of tc rs] by simp
    also have "\<dots> = (if l \<in> set (map fst (periods ?p)) then Some (map (count_cell tc rs l) ?cols) else None)"
      by (simp only: map_of_graph)
    finally show ?thesis by simp
  qed
  have "map (\<lambda>l. case map_of (periods ?p) l of Some counts \<Rightarrow> (l, counts)
                  | None \<Rightarrow> (l, map (\<lambda>_. 0) ?cols)) labels
      = map (\<lambda>l. (l, map (count_cell tc rs l) ?cols)) labels"
  proof (rule map_cong[OF refl])
    fix l assume l: "l \<in> set labels"
    show "(case map_of (periods ?p) l of Some counts \<Rightarrow> (l, counts)
                  | None \<Rightarrow> (l, map (\<lambda>_. 0) ?cols)) = (l, map (count_cell tc rs l) ?cols)"
    proof (cases "l \<in> fst ` set (periods ?p)")
      case True
      then show ?thesis by (simp add: look)
    next
      case False
      have "map (\<lambda>_. 0) ?cols = map (count_cell tc rs l) ?cols"
        by (rule map_cong[OF refl]) (use absent_label_zero[OF _ False] assms l in auto)
      then show ?thesis using False by (simp add: look)
    qed
  qed
  then show ?thesis by (simp add: reindex_def)
qed

lemma process_data_caller:
  "fst (process_data tdt argsort df tp)
     = assign_column ''Time_Date'' (\<lambda>r. time_date tdt tp (r (time_column_of tp))) df"
  by (simp add: process_data_def Let_def)

lemma process_data_column:
  "snd (snd (snd (process_data tdt argsort df tp))) = time_column_of tp"
  by (simp add: process_data_def Let_def)

lemma process_data_rows:
  "rows (fst (snd (snd (process_data tdt argsort df tp))))
     = (if kept_rows tdt df tp = [] then [] else sort_values argsort (kept_rows tdt df tp))"
  by (simp add: process_data_def Let_def kept_rows_def)

lemma process_data_pivot:
  "fst (snd (process_data tdt argsort df tp))
     = (if kept_rows tdt df tp = [] then empty_pivot
        else let s = sort_values argsort (kept_rows tdt df tp);
                 p = pivot_fillna (bookings_summary (time_column_of tp) s)
             in if \<not> pivot_empty p
                then reindex (map (\<lambda>r. r (time_column_of tp))
                        (sort_values argsort (drop_duplicates (time_column_of tp) [] s))) p
                else p)"
  by (simp add: process_data_def Let_def kept_rows_def)


lemma kept_rows_Time_Date:
  assumes "r \<in> set (kept_rows tdt df tp)"
  shows "r ''Time_Date'' = time_date tdt tp (r (time_column_of tp))" and "r ''Time_Date'' \<noteq> NaN"
    and "r (time_column_of tp) \<noteq> NaN"
proof -
  from assms have n: "r ''Time_Date'' \<noteq> NaN"
    and i: "r \<in> (\<lambda>r. r(''Time_Date'' := time_date tdt tp (r (time_column_of tp)))) ` set (rows df)"
    by (simp_all add: kept_rows_def assign_column_def)
  from i obtain r0 where r: "r = r0(''Time_Date'' := time_date tdt tp (r0 (time_column_of tp)))"
    by (rule imageE)
  have "r (time_column_of tp) = r0 (time_column_of tp)"
    using time_column_not_Time_Date[of tp] by (simp add: r)
  then show a: "r ''Time_Date'' = time_date tdt tp (r (time_column_of tp))" by (simp add: r)
  show "r ''Time_Date'' \<noteq> NaN" by (rule n)
  show "r (time_column_of tp) \<noteq> NaN"
  proof
    assume "r (time_column_of tp) = NaN"
    then have "r ''Time_Date'' = NaN" using a time_date_NaN[of tdt tp] by simp
    then show False using n by simp
  qed
qed

lemma pivot_empty_iff: "pivot_empty (pivot_fillna summary) \<longleftrightarrow> summary = []"
proof -
  have "set (statuses (pivot_fillna summary)) = {} \<longleftrightarrow> set summary = {}"
    by (simp add: pivot_statuses)
  then have a: "statuses (pivot_fillna summary) = [] \<longleftrightarrow> summary = []" by simp
  have "fst ` set (periods (pivot_fillna summary)) = {} \<longleftrightarrow> set summary = {}"
    by (simp add: pivot_label_set)
  then have b: "periods (pivot_fillna summary) = [] \<longleftrightarrow> summary = []" by simp
  show ?thesis by (simp add: pivot_empty_def a b)
qed

lemma pivot_fillna_Nil: "pivot_fillna [] = empty_pivot"
  by (simp add: pivot_fillna_def group_keys_def empty_pivot_def)

lemma count_cell_nonneg: "0 \<le> count_cell tc rs l s"
  by (simp add: count_cell_def)

lemma count_cell_perm:
  assumes "mset rs = mset rs'"
  shows "count_cell tc rs l s = count_cell tc rs' l s"
proof -
  have "mset (filter (\<lambda>r. r tc = l \<and> r ''Booking Status'' = s) rs)
      = mset (filter (\<lambda>r. r tc = l \<and> r ''Booking Status'' = s) rs')"
    using assms by (simp only: mset_filter)
  then show ?thesis unfolding count_cell_def by (simp add: mset_eq_length)
qed

lemma sorted_periods_facts:
  fixes tp :: string and tdt :: "string \<Rightarrow> cell \<Rightarrow> int option" and df :: frame
  assumes ok: "argsort_ok argsort"
  defines "tc \<equiv> time_column_of tp"
  defines "s \<equiv> sort_values argsort (kept_rows tdt df tp)"
  defines "labels \<equiv> map (\<lambda>r. r tc) (sort_values argsort (drop_duplicates tc [] s))"
  shows "\<forall>l\<in>set labels. l \<noteq> NaN"
    and "sorted (map (\<lambda>l. instant (time_date tdt tp l)) labels)"
    and "distinct labels"
    and "set labels = (\<lambda>r. r tc) ` set s"
proof -
  let ?d = "drop_duplicates tc [] s"
  let ?L = "sort_values argsort ?d"
  have ms: "mset s = mset (kept_rows tdt df tp)" unfolding s_def by (rule sort_values_perm[OF ok])
  have mL: "mset ?L = mset ?d" by (rule sort_values_perm[OF ok])
  have sub: "set ?L \<subseteq> set (kept_rows tdt df tp)"
  proof -
    have "set ?L = set ?d" using mL by (rule mset_eq_setD)
    moreover have "set ?d \<subseteq> set s" by (rule drop_duplicates_subset)
    moreover have "set s = set (kept_rows tdt df tp)" using ms by (rule mset_eq_setD)
    ultimately show ?thesis by simp
  qed
  show "\<forall>l\<in>set labels. l \<noteq> NaN"
  proof
    fix l assume "l \<in> set labels"
    then obtain r where "r \<in> set ?L" "l = r tc" by (auto simp: labels_def)
    then show "l \<noteq> NaN" using sub kept_rows_Time_Date(3)[of r tdt df tp] by (auto simp: tc_def)
  qed
  have "map (\<lambda>l. instant (time_date tdt tp l)) labels
      = map (\<lambda>r. instant (time_date tdt tp (r tc))) ?L"
    by (simp add: labels_def o_def)
  also have "\<dots> = map (\<lambda>r. instant (r ''Time_Date'')) ?L"
  proof (rule map_cong[OF refl])
    fix r assume "r \<in> set ?L"
    then have "r \<in> set (kept_rows tdt df tp)" using sub by blast
    then show "instant (time_date tdt tp (r tc)) = instant (r ''Time_Date'')"
      using kept_rows_Time_Date(1)[of r tdt df tp] by (simp add: tc_def)
  qed
  finally have e: "map (\<lambda>l. instant (time_date tdt tp l)) labels = map (\<lambda>r. instant (r ''Time_Date'')) ?L" .
  show "sorted (map (\<lambda>l. instant (time_date tdt tp l)) labels)"
    using sort_values_sorted[OF ok, of ?d] by (simp only: e)
  have ml: "mset labels = mset (map (\<lambda>r. r tc) ?d)"
    unfolding labels_def using mL by (simp only: mset_map)
  show "distinct labels"
    using drop_duplicates_distinct[of tc "[]" s] mset_eq_imp_distinct_iff[OF ml] by simp
  have "set ?L = set ?d" using mL by (rule mset_eq_setD)
  then have "set labels = (\<lambda>r. r tc) ` set ?d"
    by (simp add: labels_def)
  then show "set labels = (\<lambda>r. r tc) ` set s"
    using drop_duplicates_keys[of tc "[]" s] by simp
qed

lemma reindex_statuses: "statuses (reindex labels p) = statuses p"
  by (simp add: reindex_def)

lemma process_data_periods:
  assumes ok: "argsort_ok argsort"
  shows "(periods (fst (snd (process_data tdt argsort df tp))) = []
          \<and> statuses (fst (snd (process_data tdt argsort df tp))) = [])
       \<or> (kept_rows tdt df tp \<noteq> []
          \<and> statuses (fst (snd (process_data tdt argsort df tp))) \<noteq> []
          \<and> periods (fst (snd (process_data tdt argsort df tp)))
            = map (\<lambda>l. (l, map (count_cell (time_column_of tp) (sort_values argsort (kept_rows tdt df tp)) l)
                           (statuses (fst (snd (process_data tdt argsort df tp))))))
                (map (\<lambda>r. r (time_column_of tp))
                   (sort_values argsort
                      (drop_duplicates (time_column_of tp) [] (sort_values argsort (kept_rows tdt df tp))))))"
proof (cases "kept_rows tdt df tp = []")
  case True
  then show ?thesis by (simp add: process_data_pivot empty_pivot_def)
next
  case False
  let ?tc = "time_column_of tp"
  let ?s = "sort_values argsort (kept_rows tdt df tp)"
  let ?p = "pivot_fillna (bookings_summary ?tc ?s)"
  let ?labels = "map (\<lambda>r. r ?tc) (sort_values argsort (drop_duplicates ?tc [] ?s))"
  show ?thesis
  proof (cases "pivot_empty ?p")
    case True
    then have "bookings_summary ?tc ?s = []" by (simp only: pivot_empty_iff)
    then have "periods ?p = [] \<and> statuses ?p = []" by (simp add: pivot_fillna_Nil empty_pivot_def)
    moreover have "fst (snd (process_data tdt argsort df tp)) = ?p"
      using False True by (simp add: process_data_pivot Let_def)
    ultimately show ?thesis by simp
  next
    case ne: False
    have pv: "fst (snd (process_data tdt argsort df tp)) = reindex ?labels ?p"
      using False ne by (simp add: process_data_pivot Let_def)
    have "statuses ?p \<noteq> []" using ne by (simp add: pivot_empty_def)
    moreover have "periods (reindex ?labels ?p)
        = map (\<lambda>l. (l, map (count_cell ?tc ?s l) (statuses ?p))) ?labels"
      by (rule reindex_periods) (rule sorted_periods_facts(1)[OF ok])
    ultimately show ?thesis using False by (simp add: pv reindex_statuses)
  qed
qed

lemma process_data_statuses:
  assumes ok: "argsort_ok argsort"
  shows "set (statuses (fst (snd (process_data tdt argsort df tp))))
       = {s \<in> (\<lambda>r. r ''Booking Status'') ` set (rows (fst (snd (snd (process_data tdt argsort df tp))))). s \<noteq> NaN}"
proof (cases "kept_rows tdt df tp = []")
  case True
  then show ?thesis by (simp add: process_data_pivot process_data_rows empty_pivot_def)
next
  case False
  let ?tc = "time_column_of tp"
  let ?s = "sort_values argsort (kept_rows tdt df tp)"
  let ?p = "pivot_fillna (bookings_summary ?tc ?s)"
  have "statuses (fst (snd (process_data tdt argsort df tp))) = statuses ?p"
    using False by (simp add: process_data_pivot Let_def reindex_statuses)
  moreover have "rows (fst (snd (snd (process_data tdt argsort df tp)))) = ?s"
    using False by (simp add: process_data_rows)
  moreover have "set (statuses ?p) = {s \<in> (\<lambda>r. r ''Booking Status'') ` set ?s. s \<noteq> NaN}"
  proof -
    have "set ?s = set (kept_rows tdt df tp)"
      using sort_values_perm[OF ok, of "kept_rows tdt df tp"] by (rule mset_eq_setD)
    then have lab: "\<forall>r\<in>set ?s. r ?tc \<noteq> NaN"
      using kept_rows_Time_Date(3)[of _ tdt df tp] by blast
    have "set (statuses ?p) = snd ` fst ` set (bookings_summary ?tc ?s)" by (rule pivot_statuses)
    also have "\<dots> = snd ` {k \<in> (\<lambda>r. (r ?tc, r ''Booking Status'')) ` set ?s. fst k \<noteq> NaN \<and> snd k \<noteq> NaN}"
      by (simp only: summary_keys)
    also have "\<dots> = {s \<in> (\<lambda>r. r ''Booking Status'') ` set ?s. s \<noteq> NaN}"
      using lab by force
    finally show ?thesis .
  qed
  ultimately show ?thesis by simp
qed

lemma strip_week1: "strip (''Week 1 2024'' @ [c]) = (if is_space c then ''Week 1 2024'' else ''Week 1 2024'' @ [c])"
  by (simp add: strip_def is_space_def)

lemma match_week1: "re_match_week (''Week 1 2024'' @ rest) = Some (''1'', ''2024'')"
  by (simp add: re_match_week_def is_space_def is_digit_def)

lemma fmt_week1: "decimal (int_of_digits ''2024'') @ ''-W'' @ decimal02 (int_of_digits ''1'') @ ''-1'' = ''2024-W01-1''"
  by code_simp

lemma week1:
  "time_date to_datetime ''Week'' (Str (''Week 1 2024'' @ [c]))
     = to_cell (to_datetime ''%Y-W%W-%w'' (Str ''2024-W01-1''))"
proof -
  have "re_match_week (strip (''Week 1 2024'' @ [c])) = Some (''1'', ''2024'')"
  proof (cases "is_space c")
    case True
    then show ?thesis unfolding strip_week1 using match_week1[of "[]"] by simp
  next
    case False
    then show ?thesis unfolding strip_week1 using match_week1[of "[c]"] by simp
  qed
  moreover have "time_date to_datetime ''Week'' l = parse_week to_datetime l" for l
    by (simp add: time_date_def)
  ultimately show ?thesis
    by (simp only: parse_week.simps option.case prod.case fmt_week1)
qed


lemma sort_key_same:
  assumes "\<forall>x\<in>set xs. f x = t"
  shows "sort_key f xs = xs"
proof -
  have "map f xs = replicate (length xs) t"
    using assms by (induction xs) auto
  then have "sorted (map f xs)" by (simp add: sorted_replicate)
  then show ?thesis by (rule sort_key_id_if_sorted)
qed

lemma unstable_argsort_const:
  assumes "\<forall>k\<in>set ks. k = t"
  shows "unstable_argsort ks = rev [0..<length ks]"
proof -
  have "\<forall>i\<in>set (rev [0..<length ks]). ks ! i = t"
  proof
    fix i assume "i \<in> set (rev [0..<length ks])"
    then have "i < length ks" by simp
    then have "ks ! i \<in> set ks" by (rule nth_mem)
    then show "ks ! i = t" using assms by blast
  qed
  then show ?thesis unfolding unstable_argsort_def by (rule sort_key_same)
qed

lemma sort_values_unstable_const:
  assumes "\<forall>r\<in>set rs. instant (r ''Time_Date'') = t"
  shows "sort_values unstable_argsort rs = rev rs"
proof -
  let ?items = "map (\<lambda>r. instant (r ''Time_Date'')) rs"
  have "unstable_argsort ?items = rev [0..<length rs]"
    using unstable_argsort_const[of ?items t] assms by simp
  moreover have "map (\<lambda>i. [0..<length rs] ! i) (rev [0..<length rs]) = rev [0..<length rs]"
    by (rule map_idI) simp
  ultimately have "nargsort unstable_argsort True ?items = rev [0..<length rs]"
    by (simp add: nargsort_def Let_def)
  then have "sort_values unstable_argsort rs = map (\<lambda>i. rs ! i) (rev [0..<length rs])"
    by (simp add: sort_values_def take_rows_def)
  also have "\<dots> = rev (map (\<lambda>i. rs ! i) [0..<length rs])" by (simp only: rev_map)
  also have "\<dots> = rev rs" by (simp only: map_nth)
  finally show ?thesis .
qed

lemma week1_row:
  "time_date to_datetime ''Week''
     (Str [CHR ''W'', CHR ''e'', CHR ''e'', CHR ''k'', CHR '' '', CHR ''1'', CHR '' '',
           CHR ''2'', CHR ''0'', CHR ''2'', CHR ''4'', c])
     = to_cell (to_datetime ''%Y-W%W-%w'' (Str ''2024-W01-1''))"
  using week1[of to_datetime c] by simp

lemma sort_values_dedup_const:
  assumes "\<forall>r\<in>set rs. instant (r ''Time_Date'') = t"
  shows "sort_values unstable_argsort (drop_duplicates c seen (rev rs))
       = rev (drop_duplicates c seen (rev rs))"
proof (rule sort_values_unstable_const[where t = t], rule ballI)
  fix r assume "r \<in> set (drop_duplicates c seen (rev rs))"
  then have "r \<in> set (rev rs)" by (rule subsetD[OF drop_duplicates_subset])
  then have "r \<in> set rs" by simp
  then show "instant (r ''Time_Date'') = t" using assms by blast
qed

lemma scenario_two_periods:
  "fst (snd (process_data
      (\<lambda>format c. if c = Str ''Jan 2024'' then Some 1704067200000000000
                    else if c = Str ''Mar 2024'' then Some 1709251200000000000 else None)
      stable_argsort
      \<lparr>columns = [''Booking Week'', ''Booking Month'', ''Booking Status''],
       rows = [(\<lambda>_. NaN)(''Booking Month'' := Str ''Jan 2024'', ''Booking Status'' := Str ''Confirmed''),
               (\<lambda>_. NaN)(''Booking Month'' := Str ''Mar 2024'', ''Booking Status'' := Str ''Cancelled''),
               (\<lambda>_. NaN)(''Booking Month'' := Str ''Jan 2024'', ''Booking Status'' := Str ''Confirmed'')]\<rparr>
      ''Month''))
   = \<lparr>statuses = [Str ''Cancelled'', Str ''Confirmed''],
      periods = [(Str ''Jan 2024'', [0, 2]), (Str ''Mar 2024'', [1, 0])]\<rparr>"
  by code_simp

section \<open>The booking-status report: properties\<close>

text \<open>
  Claim C2, as the program has it. In the pivot table \<open>process_data\<close> returns, the row of a
  period has one count for every status column, the number of kept rows with that label
  and that status (so 0 where there is none), and no count is negative; the periods are
  distinct and in ascending order of their instants; when there is a status column, the
  periods are the labels of the kept rows; the status columns are the statuses of the kept
  rows that are not missing. The order of periods with one instant is the one numpy's sort
  leaves, which the theorem after the next shows need not be the order of the file.
\<close>

theorem pivot_cells_and_order:
  assumes ok: "argsort_ok argsort"
    and p: "process_data to_datetime argsort df time_period = (caller, pv, dfp, tc)"
  shows "(\<forall>(l, counts)\<in>set (periods pv).
            counts = map (count_cell tc (rows dfp) l) (statuses pv) \<and> (\<forall>c\<in>set counts. 0 \<le> c))
       \<and> sorted (map (\<lambda>(l, counts). instant (time_date to_datetime time_period l)) (periods pv))
       \<and> distinct (map fst (periods pv))
       \<and> (statuses pv \<noteq> [] \<longrightarrow> fst ` set (periods pv) = (\<lambda>r. r tc) ` set (rows dfp))
       \<and> set (statuses pv) = {s \<in> (\<lambda>r. r ''Booking Status'') ` set (rows dfp). s \<noteq> NaN}
       \<and> mset (rows dfp) = mset (filter (\<lambda>r. r ''Time_Date'' \<noteq> NaN) (rows caller))"
proof -
  let ?tc = "time_column_of time_period"
  let ?kept = "kept_rows to_datetime df time_period"
  let ?s = "sort_values argsort ?kept"
  let ?labels = "map (\<lambda>r. r ?tc) (sort_values argsort (drop_duplicates ?tc [] ?s))"
  have pv: "pv = fst (snd (process_data to_datetime argsort df time_period))"
    and dfp: "dfp = fst (snd (snd (process_data to_datetime argsort df time_period)))"
    and tc: "tc = ?tc"
    and caller: "caller = assign_column ''Time_Date''
                   (\<lambda>r. time_date to_datetime time_period (r ?tc)) df"
    using p process_data_caller[of to_datetime argsort df time_period]
      process_data_column[of to_datetime argsort df time_period] by simp_all
  have rows: "rows dfp = (if ?kept = [] then [] else ?s)"
    by (simp only: dfp process_data_rows)
  have ms: "mset ?s = mset ?kept" by (rule sort_values_perm[OF ok])
  have k: "?kept = filter (\<lambda>r. r ''Time_Date'' \<noteq> NaN) (rows caller)"
    by (simp only: caller kept_rows_def)
  have "mset (rows dfp) = mset ?kept"
  proof (cases "?kept = []")
    case True
    then show ?thesis by (simp add: rows)
  next
    case False
    then show ?thesis using ms by (simp add: rows)
  qed
  then have g6: "mset (rows dfp) = mset (filter (\<lambda>r. r ''Time_Date'' \<noteq> NaN) (rows caller))"
    using k by (simp only:)
  have g5: "set (statuses pv) = {s \<in> (\<lambda>r. r ''Booking Status'') ` set (rows dfp). s \<noteq> NaN}"
    unfolding pv dfp by (rule process_data_statuses[OF ok])
  from process_data_periods[OF ok, of to_datetime df time_period]
  consider (empty) "periods pv = []" "statuses pv = []"
    | (full) "?kept \<noteq> []" "statuses pv \<noteq> []"
        "periods pv = map (\<lambda>l. (l, map (count_cell ?tc ?s l) (statuses pv))) ?labels"
    unfolding pv by blast
  then show ?thesis
  proof cases
    case empty
    then show ?thesis using g5 g6 by simp
  next
    case full
    have r: "rows dfp = ?s" using full(1) by (simp add: rows)
    have g1: "\<forall>(l, counts)\<in>set (periods pv).
            counts = map (count_cell tc (rows dfp) l) (statuses pv) \<and> (\<forall>c\<in>set counts. 0 \<le> c)"
      by (auto simp: full(3) r tc count_cell_nonneg)
    have "map (\<lambda>(l, counts). instant (time_date to_datetime time_period l)) (periods pv)
        = map (\<lambda>l. instant (time_date to_datetime time_period l)) ?labels"
      by (simp add: full(3) o_def)
    then have g2: "sorted (map (\<lambda>(l, counts). instant (time_date to_datetime time_period l)) (periods pv))"
      using sorted_periods_facts(2)[OF ok, of to_datetime time_period df] by (simp only:)
    have fsts: "map fst (periods pv) = ?labels" by (simp add: full(3) o_def)
    have g3: "distinct (map fst (periods pv))"
      using sorted_periods_facts(3)[OF ok, of time_period to_datetime df] by (simp only: fsts)
    have "set (map fst (periods pv)) = (\<lambda>r. r ?tc) ` set ?s"
      using sorted_periods_facts(4)[OF ok, of time_period to_datetime df] by (simp only: fsts)
    then have g4: "fst ` set (periods pv) = (\<lambda>r. r tc) ` set (rows dfp)"
      by (simp add: r tc)
    show ?thesis using g1 g2 g3 g4 g5 g6 by blast
  qed
qed

theorem pivot_cells_and_order_witness:
  "\<exists>caller pv dfp tc.
     process_data
      (\<lambda>format c. if c = Str ''Jan 2024'' then Some 1704067200000000000
                    else if c = Str ''Mar 2024'' then Some 1709251200000000000 else None)
      stable_argsort
      \<lparr>columns = [''Booking Week'', ''Booking Month'', ''Booking Status''],
       rows = [(\<lambda>_. NaN)(''Booking Month'' := Str ''Jan 2024'', ''Booking Status'' := Str ''Confirmed''),
               (\<lambda>_. NaN)(''Booking Month'' := Str ''Mar 2024'', ''Booking Status'' := Str ''Cancelled''),
               (\<lambda>_. NaN)(''Booking Month'' := Str ''Jan 2024'', ''Booking Status'' := Str ''Confirmed'')]\<rparr>
      ''Month'' = (caller, pv, dfp, tc)
     \<and> pv = \<lparr>statuses = [Str ''Cancelled'', Str ''Confirmed''],
               periods = [(Str ''Jan 2024'', [0, 2]), (Str ''Mar 2024'', [1, 0])]\<rparr>
     \<and> sorted (map (\<lambda>(l, counts). instant (time_date
              (\<lambda>format c. if c = Str ''Jan 2024'' then Some 1704067200000000000
                    else if c = Str ''Mar 2024'' then Some 1709251200000000000 else None)
              ''Month'' l)) (periods pv))
     \<and> distinct (map fst (periods pv))
     \<and> fst ` set (periods pv) = (\<lambda>r. r tc) ` set (rows dfp)"
proof -
  let ?clock = "(\<lambda>format c. if c = Str ''Jan 2024'' then Some 1704067200000000000
                    else if c = Str ''Mar 2024'' then Some 1709251200000000000 else None)"
  let ?df = "\<lparr>columns = [''Booking Week'', ''Booking Month'', ''Booking Status''],
       rows = [(\<lambda>_. NaN)(''Booking Month'' := Str ''Jan 2024'', ''Booking Status'' := Str ''Confirmed''),
               (\<lambda>_. NaN)(''Booking Month'' := Str ''Mar 2024'', ''Booking Status'' := Str ''Cancelled''),
               (\<lambda>_. NaN)(''Booking Month'' := Str ''Jan 2024'', ''Booking Status'' := Str ''Confirmed'')]\<rparr>"
  obtain caller pv dfp tc where p: "process_data ?clock stable_argsort ?df ''Month'' = (caller, pv, dfp, tc)"
    by (rule prod_cases4)
  have pv: "pv = \<lparr>statuses = [Str ''Cancelled'', Str ''Confirmed''],
               periods = [(Str ''Jan 2024'', [0, 2]), (Str ''Mar 2024'', [1, 0])]\<rparr>"
    using scenario_two_periods by (simp only: p fst_conv snd_conv)
  have ne: "statuses pv \<noteq> []" by (simp add: pv)
  note t = pivot_cells_and_order[OF stable_argsort_ok p]
  note g2 = t[THEN conjunct2, THEN conjunct1]
  note g3 = t[THEN conjunct2, THEN conjunct2, THEN conjunct1]
  note g4 = t[THEN conjunct2, THEN conjunct2, THEN conjunct2, THEN conjunct1, THEN mp, OF ne]
  show ?thesis
    by (intro exI conjI) (rule p, rule pv, rule g2, rule g3, rule g4)
qed

text \<open>
  Claim C2 as stated fails: nineteen rows whose labels all read as week 1 of 2024, the
  first label coming back in the last row, and a sort that keeps the library's promise,
  give periods that are not in the specification's order.
\<close>

theorem period_ties_counterexample:
  "argsort_ok unstable_argsort \<and>
   map fst (periods (fst (snd (process_data
      (\<lambda>format c. if c = Str ''2024-W01-1'' then Some 1704067200000000000 else None)
      unstable_argsort
      \<lparr>columns = [''Booking Week'', ''Booking Month'', ''Booking Status''],
       rows = map (\<lambda>c. (\<lambda>_. Str ''Confirmed'')(''Booking Week'' := Str (''Week 1 2024'' @ [c])))
                ''abcdefghijklmnopqra''\<rparr>
      ''Week''))))
   \<noteq> spec_period_order
      (\<lambda>format c. if c = Str ''2024-W01-1'' then Some 1704067200000000000 else None)
      \<lparr>columns = [''Booking Week'', ''Booking Month'', ''Booking Status''],
       rows = map (\<lambda>c. (\<lambda>_. Str ''Confirmed'')(''Booking Week'' := Str (''Week 1 2024'' @ [c])))
                ''abcdefghijklmnopqra''\<rparr>
      ''Week''"
proof
  show "argsort_ok unstable_argsort" by (rule unstable_argsort_ok)
next
  let ?clock = "\<lambda>format c. if c = Str ''2024-W01-1'' then Some (1704067200000000000::int) else None"
  let ?cs = "''abcdefghijklmnopqra''"
  let ?h = "\<lambda>c. (\<lambda>_. Str ''Confirmed'')
      (''Booking Week'' := Str (''Week 1 2024'' @ [c]), ''Time_Date'' := Ts 1704067200000000000)"
  let ?df = "\<lparr>columns = [''Booking Week'', ''Booking Month'', ''Booking Status''],
       rows = map (\<lambda>c. (\<lambda>_. Str ''Confirmed'')(''Booking Week'' := Str (''Week 1 2024'' @ [c]))) ?cs\<rparr>"
  let ?pv = "fst (snd (process_data ?clock unstable_argsort ?df ''Week''))"
  have tc: "time_column_of ''Week'' = ''Booking Week''" by (simp add: time_column_of_def)
  have kept: "kept_rows ?clock ?df ''Week'' = map ?h ?cs"
    unfolding kept_rows_def assign_column_def tc
    by (simp add: week1_row to_cell_def del: map_eq_conv)
  define hs where "hs = map ?h ?cs"
  have kept': "kept_rows ?clock ?df ''Week'' = hs" by (simp only: kept hs_def)
  have ne: "hs \<noteq> []" by (simp add: hs_def)
  have inst: "\<forall>r\<in>set hs. instant (r ''Time_Date'') = 1704067200000000000"
    by (simp add: hs_def instant_def)
  have s: "sort_values unstable_argsort hs = rev hs"
    by (rule sort_values_unstable_const[OF inst])
  have s2: "sort_values unstable_argsort (drop_duplicates ''Booking Week'' [] (rev hs))
      = rev (drop_duplicates ''Booking Week'' [] (rev hs))"
    by (rule sort_values_dedup_const[OF inst])
  have conf: "Str ''Confirmed'' \<in> (\<lambda>r. r ''Booking Status'') ` set (rev hs)"
    by (simp add: hs_def)
  have st: "statuses ?pv \<noteq> []"
  proof -
    have "rows (fst (snd (snd (process_data ?clock unstable_argsort ?df ''Week'')))) = rev hs"
      using ne by (simp only: process_data_rows kept' s if_False)
    then have "Str ''Confirmed'' \<in> set (statuses ?pv)"
      using conf by (simp only: process_data_statuses[OF unstable_argsort_ok]) simp
    then show ?thesis by auto
  qed
  have code: "map fst (periods ?pv)
      = map (\<lambda>r. r ''Booking Week'') (rev (drop_duplicates ''Booking Week'' [] (rev hs)))"
    using process_data_periods[OF unstable_argsort_ok, of ?clock ?df "''Week''"] st
    by (simp only: tc kept' s s2) (simp add: o_def)
  have labels: "map (\<lambda>r. r ''Booking Week'') (rev (drop_duplicates ''Booking Week'' [] (rev hs)))
      = map (\<lambda>c. Str (''Week 1 2024'' @ [c])) ''bcdefghijklmnopqra''"
    by (simp add: hs_def)
  have first: "map (\<lambda>r. r ''Booking Week'') (drop_duplicates ''Booking Week'' [] hs)
      = map (\<lambda>c. Str (''Week 1 2024'' @ [c])) ''abcdefghijklmnopqr''"
    by (simp add: hs_def)
  have "spec_period_order ?clock ?df ''Week''
      = sort_key (\<lambda>l. instant (time_date ?clock ''Week'' l))
          (map (\<lambda>c. Str (''Week 1 2024'' @ [c])) ''abcdefghijklmnopqr'')"
    by (simp only: spec_period_order_def tc kept' first)
  also have "\<dots> = map (\<lambda>c. Str (''Week 1 2024'' @ [c])) ''abcdefghijklmnopqr''"
    by (rule sort_key_same[where t = 1704067200000000000])
       (simp add: week1_row to_cell_def instant_def)
  finally have spec: "spec_period_order ?clock ?df ''Week''
      = map (\<lambda>c. Str (''Week 1 2024'' @ [c])) ''abcdefghijklmnopqr''" .
  show "map fst (periods ?pv) \<noteq> spec_period_order ?clock ?df ''Week''"
    by (simp only: code labels spec) simp
qed

section \<open>Period labels and effects: lemmas\<close>

lemma assign_column_twice:
  assumes "\<And>r v. f (r(c := v)) = f r"
  shows "assign_column c f (assign_column c f df) = assign_column c f df"
  using assms by (simp add: assign_column_def o_def)

lemma time_date_ignores_Time_Date:
  "time_date tdt tp ((r(''Time_Date'' := v)) (time_column_of tp)) = time_date tdt tp (r (time_column_of tp))"
  using time_column_not_Time_Date[of tp] by simp

lemma process_data_via_caller:
  assumes "assign_column ''Time_Date'' (\<lambda>r. time_date tdt tp (r (time_column_of tp))) df
         = assign_column ''Time_Date'' (\<lambda>r. time_date tdt tp (r (time_column_of tp))) df'"
  shows "process_data tdt argsort df tp = process_data tdt argsort df' tp"
  unfolding process_data_def Let_def using assms by (simp only:)

lemma script_unfold:
  "script to_datetime argsort df time_period =
     (if \<not> set required_columns \<subseteq> set (columns df) then Inl MissingColumns
      else if pivot_empty (fst (snd (process_data to_datetime argsort df time_period)))
      then Inl (NoValidPeriods time_period (time_column_of time_period))
      else Inr \<lparr>report_pivot = fst (snd (process_data to_datetime argsort df time_period)),
                report_df = fst (snd (snd (process_data to_datetime argsort df time_period))),
                report_total = length (rows (fst (process_data to_datetime argsort df time_period))),
                confirmed = status_total (fst (process_data to_datetime argsort df time_period)) ''Confirmed'',
                cancelled = status_total (fst (process_data to_datetime argsort df time_period)) ''Cancelled'',
                rejected = status_total (fst (process_data to_datetime argsort df time_period)) ''Rejected''\<rparr>)"
proof -
  have "snd (snd (snd (process_data to_datetime argsort df time_period))) = time_column_of time_period"
    by (rule process_data_column)
  then show ?thesis
    by (simp add: script_def list_all_iff split_beta subset_iff)
qed

lemma kept_rows_empty_iff:
  "kept_rows to_datetime df time_period = []
     \<longleftrightarrow> (\<forall>r\<in>set (rows df). time_date to_datetime time_period (r (time_column_of time_period)) = NaN)"
  by (simp add: kept_rows_def assign_column_def filter_empty_conv)

lemma script_no_kept_rows:
  assumes "set required_columns \<subseteq> set (columns df)"
    and "kept_rows to_datetime df time_period = []"
  shows "script to_datetime argsort df time_period
       = Inl (NoValidPeriods time_period (time_column_of time_period))"
  using assms by (simp add: script_unfold process_data_pivot empty_pivot_def pivot_empty_def)

lemma week_grammar_plain: "week_grammar ''Week 1 2024''"
proof -
  have "''Week 1 2024'' = ''Week'' @ '' '' @ ''1'' @ '' '' @ ''2024''" by simp
  moreover have "list_all is_space '' ''" "list_all is_digit ''1''" "list_all is_digit ''2024''"
    by (simp_all add: is_space_def is_digit_def)
  ultimately show ?thesis unfolding week_grammar_def
    by (intro exI[of _ "'' ''"] exI[of _ "''1''"] exI[of _ "''2024''"]) simp
qed

lemma week_grammar_last_digit:
  assumes "week_grammar s"
  shows "is_digit (last s)"
proof -
  from assms obtain ws1 g1 ws2 g2 where s: "s = ''Week'' @ ws1 @ g1 @ ws2 @ g2"
    and l: "length g2 = 4" and d: "list_all is_digit g2"
    unfolding week_grammar_def by blast
  from l have ne: "g2 \<noteq> []" by auto
  then have "last s = last g2" by (simp add: s)
  moreover have "last g2 \<in> set g2" using ne by (rule last_in_set)
  ultimately show ?thesis using d by (simp add: list_all_iff)
qed

lemma week1_plain:
  "time_date to_datetime ''Week'' (Str ''Week 1 2024'')
     = to_cell (to_datetime ''%Y-W%W-%w'' (Str ''2024-W01-1''))"
proof -
  have "strip ''Week 1 2024'' = ''Week 1 2024''" by (simp add: strip_def is_space_def)
  then have "re_match_week (strip ''Week 1 2024'') = Some (''1'', ''2024'')"
    using match_week1[of "[]"] by simp
  moreover have "time_date to_datetime ''Week'' l = parse_week to_datetime l" for l
    by (simp add: time_date_def)
  ultimately show ?thesis
    by (simp only: parse_week.simps option.case prod.case fmt_week1)
qed

section \<open>Period labels and effects: properties\<close>

text \<open>
  Claim C3 at the label \<^verbatim>\<open>Week 1 2024x\<close>. The label is not of the form
  \<^verbatim>\<open>Week <int> <4-digit-year>\<close>, which \<^verbatim>\<open>Week 1 2024\<close> is, and yet in week mode the two resolve
  alike, to what the library makes of \<^verbatim>\<open>2024-W01-1\<close>: the pattern is matched from the start
  of the label and not to its end. With the library's reading of that text, midnight of
  1 January 2024, the row of the label is kept, with that timestamp.
\<close>

theorem trailing_text_resolves:
  "week_grammar ''Week 1 2024'' \<and> \<not> week_grammar ''Week 1 2024x''
   \<and> time_date to_datetime ''Week'' (Str ''Week 1 2024x'')
       = time_date to_datetime ''Week'' (Str ''Week 1 2024'')
   \<and> time_date to_datetime ''Week'' (Str ''Week 1 2024x'')
       = to_cell (to_datetime ''%Y-W%W-%w'' (Str ''2024-W01-1''))
   \<and> map (\<lambda>r. (r ''Booking Week'', r ''Time_Date''))
         (rows (fst (snd (snd (process_data
            (\<lambda>format c. if c = Str ''2024-W01-1'' then Some 1704067200000000000 else None)
            stable_argsort
            \<lparr>columns = [''Booking Week'', ''Booking Month'', ''Booking Status''],
             rows = [(\<lambda>_. NaN)(''Booking Week'' := Str ''Week 1 2024x'',
                                ''Booking Month'' := Str ''Jan 2024'',
                                ''Booking Status'' := Str ''Confirmed'')]\<rparr>
            ''Week'')))))
       = [(Str ''Week 1 2024x'', Ts 1704067200000000000)]"
proof (intro conjI)
  show "week_grammar ''Week 1 2024''" by (rule week_grammar_plain)
  show "\<not> week_grammar ''Week 1 2024x''"
  proof
    assume "week_grammar ''Week 1 2024x''"
    then have "is_digit (last ''Week 1 2024x'')" by (rule week_grammar_last_digit)
    then show False by (simp add: is_digit_def)
  qed
  show x: "time_date to_datetime ''Week'' (Str ''Week 1 2024x'')
       = to_cell (to_datetime ''%Y-W%W-%w'' (Str ''2024-W01-1''))" for to_datetime
    using week1[of to_datetime "CHR ''x''"] by simp
  show "time_date to_datetime ''Week'' (Str ''Week 1 2024x'')
       = time_date to_datetime ''Week'' (Str ''Week 1 2024'')"
    by (simp only: x week1_plain)
  show "map (\<lambda>r. (r ''Booking Week'', r ''Time_Date''))
         (rows (fst (snd (snd (process_data
            (\<lambda>format c. if c = Str ''2024-W01-1'' then Some 1704067200000000000 else None)
            stable_argsort
            \<lparr>columns = [''Booking Week'', ''Booking Month'', ''Booking Status''],
             rows = [(\<lambda>_. NaN)(''Booking Week'' := Str ''Week 1 2024x'',
                                ''Booking Month'' := Str ''Jan 2024'',
                                ''Booking Status'' := Str ''Confirmed'')]\<rparr>
            ''Week'')))))
       = [(Str ''Week 1 2024x'', Ts 1704067200000000000)]"
    by (simp add: process_data_rows kept_rows_def assign_column_def time_column_of_def x
          to_cell_def sort_values_def take_rows_def nargsort_def stable_argsort_def Let_def)
qed

text \<open>
  Claim C5, as the program has it. With the three columns there, when no label resolves
  the script stops with \<open>NoValidPeriods\<close>, which names the period and the time column; it
  does the same for the same file without its rows.
\<close>

theorem no_valid_periods:
  assumes "{''Booking Week'', ''Booking Month'', ''Booking Status''} \<subseteq> set (columns df)"
    and "\<forall>r\<in>set (rows df). time_date to_datetime time_period (r (time_column_of time_period)) = NaN"
  shows "script to_datetime argsort df time_period
           = Inl (NoValidPeriods time_period (time_column_of time_period))
       \<and> script to_datetime argsort (df\<lparr>rows := []\<rparr>) time_period
           = script to_datetime argsort df time_period"
proof -
  have c: "set required_columns \<subseteq> set (columns df)"
    using assms(1) by (simp add: required_columns_def)
  have "kept_rows to_datetime df time_period = []"
    using assms(2) by (simp only: kept_rows_empty_iff)
  then have a: "script to_datetime argsort df time_period
           = Inl (NoValidPeriods time_period (time_column_of time_period))"
    by (rule script_no_kept_rows[OF c])
  have "kept_rows to_datetime (df\<lparr>rows := []\<rparr>) time_period = []"
    by (simp add: kept_rows_empty_iff)
  moreover have "set required_columns \<subseteq> set (columns (df\<lparr>rows := []\<rparr>))" using c by simp
  ultimately have "script to_datetime argsort (df\<lparr>rows := []\<rparr>) time_period
           = Inl (NoValidPeriods time_period (time_column_of time_period))"
    by (rule script_no_kept_rows[rotated])
  then show ?thesis using a by simp
qed

theorem no_valid_periods_witness:
  "script (\<lambda>_ _. Some 0) stable_argsort
      \<lparr>columns = [''Booking Week'', ''Booking Month'', ''Booking Status''],
       rows = [(\<lambda>_. Str ''Confirmed'')(''Booking Week'' := Str ''Foo 2024'')]\<rparr> ''Week''
     = Inl (NoValidPeriods ''Week'' ''Booking Week'')"
proof -
  have "re_match_week (strip ''Foo 2024'') = None"
    by (simp add: re_match_week_def strip_def is_space_def)
  then have "time_date (\<lambda>_ _. Some 0) ''Week'' (Str ''Foo 2024'') = NaN"
    by (simp add: time_date_def)
  then show ?thesis
    using no_valid_periods[of
      "\<lparr>columns = [''Booking Week'', ''Booking Month'', ''Booking Status''],
       rows = [(\<lambda>_. Str ''Confirmed'')(''Booking Week'' := Str ''Foo 2024'')]\<rparr>"
      "\<lambda>_ _. Some 0" "''Week''" stable_argsort]
    by (simp add: time_column_of_def)
qed

text \<open>
  Claim C5 as stated fails: a file whose only label does not parse and a file with no
  rows at all end in the same way.
\<close>

theorem no_rows_same_outcome_counterexample:
  "\<forall>to_datetime argsort.
     script to_datetime argsort
       \<lparr>columns = [''Booking Week'', ''Booking Month'', ''Booking Status''],
        rows = [(\<lambda>_. Str ''Confirmed'')(''Booking Week'' := Str ''Foo 2024'')]\<rparr> ''Week''
     = script to_datetime argsort
       \<lparr>columns = [''Booking Week'', ''Booking Month'', ''Booking Status''], rows = []\<rparr> ''Week''"
proof (intro allI)
  fix to_datetime :: "string \<Rightarrow> cell \<Rightarrow> int option" and argsort :: "int list \<Rightarrow> nat list"
  let ?df = "\<lparr>columns = [''Booking Week'', ''Booking Month'', ''Booking Status''],
        rows = [(\<lambda>_. Str ''Confirmed'')(''Booking Week'' := Str ''Foo 2024'')]\<rparr>"
  have "re_match_week (strip ''Foo 2024'') = None"
    by (simp add: re_match_week_def strip_def is_space_def)
  then have n: "time_date to_datetime ''Week'' (Str ''Foo 2024'') = NaN"
    by (simp add: time_date_def)
  have "kept_rows to_datetime ?df ''Week'' = []"
    using n by (simp add: kept_rows_empty_iff time_column_of_def)
  then have "script to_datetime argsort ?df ''Week'' = Inl (NoValidPeriods ''Week'' (time_column_of ''Week''))"
    by (intro script_no_kept_rows) (simp_all add: required_columns_def)
  moreover have "script to_datetime argsort
       \<lparr>columns = [''Booking Week'', ''Booking Month'', ''Booking Status''], rows = []\<rparr> ''Week''
       = Inl (NoValidPeriods ''Week'' (time_column_of ''Week''))"
    by (intro script_no_kept_rows) (simp_all add: required_columns_def kept_rows_empty_iff)
  ultimately show "script to_datetime argsort ?df ''Week''
     = script to_datetime argsort
       \<lparr>columns = [''Booking Week'', ''Booking Month'', ''Booking Status''], rows = []\<rparr> ''Week''"
    by simp
qed

text \<open>
  Claim C7, as the program has it. \<open>process_data\<close> assigns the column \<^verbatim>\<open>Time_Date\<close> in the
  frame it is given: the column is added when it is not there, its cells are the
  instants of the labels, and no other column changes; a second run on the frame the
  first run left returns what the first returned.
\<close>

theorem process_data_effect:
  "columns (fst (process_data to_datetime argsort df time_period))
     = (if ''Time_Date'' \<in> set (columns df) then columns df else columns df @ [''Time_Date''])
   \<and> (\<forall>c. c \<noteq> ''Time_Date'' \<longrightarrow>
          map (\<lambda>r. r c) (rows (fst (process_data to_datetime argsort df time_period)))
            = map (\<lambda>r. r c) (rows df))
   \<and> map (\<lambda>r. r ''Time_Date'') (rows (fst (process_data to_datetime argsort df time_period)))
       = map (\<lambda>r. time_date to_datetime time_period (r (time_column_of time_period))) (rows df)
   \<and> process_data to_datetime argsort (fst (process_data to_datetime argsort df time_period)) time_period
       = process_data to_datetime argsort df time_period"
proof (intro conjI allI impI)
  let ?f = "\<lambda>r. time_date to_datetime time_period (r (time_column_of time_period))"
  show "columns (fst (process_data to_datetime argsort df time_period))
     = (if ''Time_Date'' \<in> set (columns df) then columns df else columns df @ [''Time_Date''])"
    by (simp add: process_data_caller assign_column_def)
  show "map (\<lambda>r. r c) (rows (fst (process_data to_datetime argsort df time_period)))
            = map (\<lambda>r. r c) (rows df)" if "c \<noteq> ''Time_Date''" for c
    using that by (simp add: process_data_caller assign_column_def o_def)
  show "map (\<lambda>r. r ''Time_Date'') (rows (fst (process_data to_datetime argsort df time_period)))
       = map ?f (rows df)"
    by (simp add: process_data_caller assign_column_def o_def)
  have "assign_column ''Time_Date'' ?f (assign_column ''Time_Date'' ?f df) = assign_column ''Time_Date'' ?f df"
    by (rule assign_column_twice) (rule time_date_ignores_Time_Date)
  then have "process_data to_datetime argsort (assign_column ''Time_Date'' ?f df) time_period
       = process_data to_datetime argsort df time_period"
    by (rule process_data_via_caller)
  then show "process_data to_datetime argsort (fst (process_data to_datetime argsort df time_period)) time_period
       = process_data to_datetime argsort df time_period"
    by (simp only: process_data_caller)
qed

theorem process_data_effect_witness:
  "map (\<lambda>r. r ''Booking Status'')
      (rows (fst (process_data (\<lambda>_ _. Some 0) stable_argsort
         \<lparr>columns = [''Booking Week'', ''Booking Month'', ''Booking Status''],
          rows = [(\<lambda>_. Str ''Confirmed'')(''Booking Month'' := Str ''Jan 2024'')]\<rparr> ''Month'')))
     = map (\<lambda>r. r ''Booking Status'') (rows
         \<lparr>columns = [''Booking Week'', ''Booking Month'', ''Booking Status''],
          rows = [(\<lambda>_. Str ''Confirmed'')(''Booking Month'' := Str ''Jan 2024'')]\<rparr>)
   \<and> process_data (\<lambda>_ _. Some 0) stable_argsort
       (fst (process_data (\<lambda>_ _. Some 0) stable_argsort
         \<lparr>columns = [''Booking Week'', ''Booking Month'', ''Booking Status''],
          rows = [(\<lambda>_. Str ''Confirmed'')(''Booking Month'' := Str ''Jan 2024'')]\<rparr> ''Month'')) ''Month''
     = process_data (\<lambda>_ _. Some 0) stable_argsort
         \<lparr>columns = [''Booking Week'', ''Booking Month'', ''Booking Status''],
          rows = [(\<lambda>_. Str ''Confirmed'')(''Booking Month'' := Str ''Jan 2024'')]\<rparr> ''Month''"
proof -
  note t = process_data_effect[of "\<lambda>_ _. Some 0" stable_argsort
         "\<lparr>columns = [''Booking Week'', ''Booking Month'', ''Booking Status''],
          rows = [(\<lambda>_. Str ''Confirmed'')(''Booking Month'' := Str ''Jan 2024'')]\<rparr>" "''Month''"]
  have "''Booking Status'' \<noteq> ''Time_Date''" by simp
  then show ?thesis
    using t[THEN conjunct2, THEN conjunct1, rule_format, of "''Booking Status''"]
      t[THEN conjunct2, THEN conjunct2, THEN conjunct2]
    by (intro conjI) blast+
qed

text \<open>
  Claim C7 as stated fails: after \<open>process_data\<close> the caller's frame is not the frame it
  passed.
\<close>

theorem process_data_mutates_counterexample:
  "\<forall>to_datetime argsort.
     fst (process_data to_datetime argsort
         \<lparr>columns = [''Booking Week'', ''Booking Month'', ''Booking Status''],
          rows = [(\<lambda>_. Str ''Confirmed'')(''Booking Month'' := Str ''Jan 2024'')]\<rparr> ''Month'')
     \<noteq> \<lparr>columns = [''Booking Week'', ''Booking Month'', ''Booking Status''],
          rows = [(\<lambda>_. Str ''Confirmed'')(''Booking Month'' := Str ''Jan 2024'')]\<rparr>"
  by (simp add: process_data_caller assign_column_def)

end
